theory Spec2Isabelle
  imports Main "HOL-Library.Sublist"
begin

section \<open>JavaScript values\<close>

text \<open>
  The client is JavaScript: every value that crosses the wire is the result of
  \<^verbatim>\<open>JSON.parse\<close> or \<^verbatim>\<open>response.json()\<close>, and the code inspects it by duck typing.
  The values are modelled as they are at run time.

  \<^item> A string is a \<open>char list\<close>; text outside ASCII is held in its UTF-8 bytes.
  \<^item> A Number is held as the decimal text that \<^verbatim>\<open>Number.prototype.toString\<close> gives
    for it (\<open>''0''\<close> for both zeros, \<open>''NaN''\<close>, \<open>''Infinity''\<close>): the code under study
    only tests numbers for truthiness and converts them to text.
  \<^item> An object is its list of own properties, each key once.
\<close>

datatype jsval =
    Undefined
  | Null
  | Bool bool
  | Num string
  | Str string
  | Arr "jsval list"
  | Obj "(string \<times> jsval) list"

text \<open>Exceptions, by constructor, with the text of their \<^verbatim>\<open>message\<close> property.\<close>

datatype exn = Error string | TypeError string | SyntaxError string

fun message :: "exn \<Rightarrow> string" where
  "message (Error m) = m"
| "message (TypeError m) = m"
| "message (SyntaxError m) = m"

text \<open>ToBoolean, as \<^verbatim>\<open>if (x)\<close>, \<^verbatim>\<open>!x\<close>, \<^verbatim>\<open>x || y\<close> and \<^verbatim>\<open>x && y\<close> apply it.\<close>

fun truthy :: "jsval \<Rightarrow> bool" where
  "truthy Undefined = False"
| "truthy Null = False"
| "truthy (Bool b) = b"
| "truthy (Num n) = (n \<noteq> ''0'' \<and> n \<noteq> ''NaN'')"
| "truthy (Str s) = (s \<noteq> [])"
| "truthy (Arr xs) = True"
| "truthy (Obj kvs) = True"

definition nullish :: "jsval \<Rightarrow> bool" where
  "nullish v = (v = Undefined \<or> v = Null)"

text \<open>
  Reading a property. \<open>field v k\<close> is \<^verbatim>\<open>v.k\<close> for a \<open>v\<close> that is neither null nor
  undefined, and for a key \<open>k\<close> that no prototype defines: every key the sources read
  (\<^verbatim>\<open>type\<close>, \<^verbatim>\<open>data\<close>, \<^verbatim>\<open>metadata\<close>, \<^verbatim>\<open>title\<close>, \<^verbatim>\<open>message\<close>, \<^verbatim>\<open>detail\<close>, \<^verbatim>\<open>stage3\<close>,
  \<^verbatim>\<open>response\<close>, \<^verbatim>\<open>access_token\<close>, \<^verbatim>\<open>user\<close>, \<^verbatim>\<open>base64\<close>, \<^verbatim>\<open>filename\<close>) is of that kind.
  On a primitive or an array such a key is absent.
\<close>

fun field :: "jsval \<Rightarrow> string \<Rightarrow> jsval" where
  "field (Obj kvs) k = (case map_of kvs k of Some v \<Rightarrow> v | None \<Rightarrow> Undefined)"
| "field v k = Undefined"

definition cannot_read :: "jsval \<Rightarrow> string \<Rightarrow> exn" where
  "cannot_read v k = TypeError
     (''Cannot read properties of '' @ (if v = Null then ''null'' else ''undefined'')
       @ '' (reading '' @ [CHR 0x27] @ k @ [CHR 0x27] @ '')'')"

text \<open>\<^verbatim>\<open>v.k\<close>: a TypeError on null and undefined.\<close>

definition get :: "jsval \<Rightarrow> string \<Rightarrow> exn + jsval" where
  "get v k = (if nullish v then Inl (cannot_read v k) else Inr (field v k))"

text \<open>\<^verbatim>\<open>v?.k\<close>: undefined on null and undefined.\<close>

definition opt_get :: "jsval \<Rightarrow> string \<Rightarrow> jsval" where
  "opt_get v k = (if nullish v then Undefined else field v k)"

text \<open>\<^verbatim>\<open>hay.includes(needle)\<close> and \<^verbatim>\<open>s.startsWith(p)\<close> on strings.\<close>

fun includes_str :: "string \<Rightarrow> string \<Rightarrow> bool" where
  "includes_str [] needle = (needle = [])"
| "includes_str (c # cs) needle = (prefix needle (c # cs) \<or> includes_str cs needle)"

definition startsWith :: "string \<Rightarrow> string \<Rightarrow> bool" where
  "startsWith s p = prefix p s"

text \<open>
  ToString, as \<^verbatim>\<open>new Error(x)\<close> applies it to its argument. An array is joined with
  commas, null and undefined elements giving the empty text. An object prints as
  \<^verbatim>\<open>[object Object]\<close> unless it has an own property \<^verbatim>\<open>toString\<close>: a parsed value is
  never callable, so the conversion finds no method that yields a primitive and
  throws a TypeError.
\<close>

fun toString :: "jsval \<Rightarrow> exn + string"
  and join :: "jsval list \<Rightarrow> exn + string" where
  "toString Undefined = Inr ''undefined''"
| "toString Null = Inr ''null''"
| "toString (Bool b) = Inr (if b then ''true'' else ''false'')"
| "toString (Num n) = Inr n"
| "toString (Str s) = Inr s"
| "toString (Arr xs) = join xs"
| "toString (Obj kvs) =
     (if map_of kvs ''toString'' \<noteq> None
      then Inl (TypeError ''Cannot convert object to primitive value'')
      else Inr ''[object Object]'')"
| "join [] = Inr []"
| "join (x # xs) =
     (case (if x = Undefined \<or> x = Null then Inr [] else toString x) of
        Inl e \<Rightarrow> Inl e
      | Inr a \<Rightarrow>
          (if xs = [] then Inr a
           else (case join xs of Inl e \<Rightarrow> Inl e | Inr b \<Rightarrow> Inr (a @ '','' @ b))))"

text \<open>Writing a property of an object: the key keeps its place if it is there.\<close>

fun set_field :: "(string \<times> jsval) list \<Rightarrow> string \<Rightarrow> jsval \<Rightarrow> (string \<times> jsval) list" where
  "set_field [] k v = [(k, v)]"
| "set_field ((k', v') # kvs) k v =
     (if k' = k then (k, v) # kvs else (k', v') # set_field kvs k v)"

section \<open>The message text of a stored assistant message\<close>

text \<open>
  \<^verbatim>\<open>getAssistantResponseText\<close> of the application component. The argument is the
  \<^verbatim>\<open>content\<close> of a message as the backend stored it, of any shape; the result is what
  the \<^verbatim>\<open>return\<close> hands to the renderer, \<open>Inl\<close> if an access throws.
\<close>

definition isArray :: "jsval \<Rightarrow> bool" where
  "isArray v = (case v of Arr xs \<Rightarrow> True | _ \<Rightarrow> False)"

definition is_string :: "jsval \<Rightarrow> bool" where
  "is_string v = (case v of Str s \<Rightarrow> True | _ \<Rightarrow> False)"

text \<open>\<^verbatim>\<open>content[content.length - 1]\<close> on an array: undefined when it is empty.\<close>

definition last_item :: "jsval \<Rightarrow> jsval" where
  "last_item v = (case v of Arr xs \<Rightarrow> (if xs = [] then Undefined else last xs) | _ \<Rightarrow> Undefined)"

definition getAssistantResponseText :: "jsval \<Rightarrow> exn + jsval" where
  "getAssistantResponseText content =
     (if \<not> truthy content then Inr (Str ''No response'')
      else if is_string content then Inr content
      else (case get content ''stage3'' of
              Inl e \<Rightarrow> Inl e
            | Inr stage3 \<Rightarrow>
                if truthy (opt_get stage3 ''response'') then get stage3 ''response''
                else (case get content ''response'' of
                        Inl e \<Rightarrow> Inl e
                      | Inr response \<Rightarrow>
                          if truthy response then Inr response
                          else if isArray content
                                  \<and> truthy (opt_get (last_item content) ''response'')
                          then get (last_item content) ''response''
                          else Inr (Str ''Response format not recognized''))))"

section \<open>A reader of JSON text\<close>

text \<open>
  \<^verbatim>\<open>JSON.parse\<close> belongs to the engine, not to this repository; the functions below
  take it as a parameter, and their theorems hold for every such parameter. To run
  them on a concrete stream one reader is written out here: a scanner and a
  pushdown recogniser for the JSON grammar (RFC 8259), both total by structural
  recursion. Its limits are those of the value model:

  \<^item> the Number of a literal is computed for an integer literal of at most 15
    characters, where the literal is its own canonical text; for any other literal
    the reader accepts the syntax and leaves the text of the Number unspecified;
  \<^item> a \<^verbatim>\<open>\u\<close> escape is resolved below \<^verbatim>\<open>0x80\<close> and left unspecified above;
  \<^item> engines word a SyntaxError differently; the reader gives every ill-formed
    text the message V8 has for a text that ends too early.
\<close>

datatype token =
  LBrace | RBrace | LBrack | RBrack | Colon | Comma
  | TStr string | TNum string | TWord string

definition is_ws :: "char \<Rightarrow> bool" where
  "is_ws c = (c \<in> set [CHR '' '', CHR 0x09, CHR 0x0A, CHR 0x0D])"

definition is_digit :: "char \<Rightarrow> bool" where
  "is_digit c = (c \<in> set ''0123456789'')"

definition is_letter :: "char \<Rightarrow> bool" where
  "is_letter c = (c \<in> set ''abcdefghijklmnopqrstuvwxyz'')"

definition is_numchar :: "char \<Rightarrow> bool" where
  "is_numchar c = (is_digit c \<or> c \<in> set ''-+.eE'')"

definition is_hex :: "char \<Rightarrow> bool" where
  "is_hex c = (is_digit c \<or> c \<in> set ''abcdefABCDEF'')"

definition hex_val :: "char \<Rightarrow> nat" where
  "hex_val c = (if is_digit c then of_char c - 48
                else if c \<in> set ''abcdef'' then of_char c - 87
                else of_char c - 55)"

text \<open>The tokens of one character; white space is no token.\<close>

definition punct :: "char \<Rightarrow> token list option" where
  "punct c =
     (if is_ws c then Some []
      else if c = CHR ''{'' then Some [LBrace]
      else if c = CHR ''}'' then Some [RBrace]
      else if c = CHR ''['' then Some [LBrack]
      else if c = CHR '']'' then Some [RBrack]
      else if c = CHR '':'' then Some [Colon]
      else if c = CHR '','' then Some [Comma]
      else None)"

text \<open>The character after a backslash in a string literal.\<close>

definition escape :: "char \<Rightarrow> char option" where
  "escape c =
     (if c = CHR 0x22 then Some (CHR 0x22)
      else if c = CHR 0x5C then Some (CHR 0x5C)
      else if c = CHR ''/'' then Some (CHR ''/'')
      else if c = CHR ''b'' then Some (CHR 0x08)
      else if c = CHR ''f'' then Some (CHR 0x0C)
      else if c = CHR ''n'' then Some (CHR 0x0A)
      else if c = CHR ''r'' then Some (CHR 0x0D)
      else if c = CHR ''t'' then Some (CHR 0x09)
      else None)"

definition code_unit :: "nat \<Rightarrow> string" where
  "code_unit n = (if n < 128 then [char_of n] else undefined)"

datatype lex_mode =
  Top | InStr string | InEsc string | InHex string "char list" | InNum string | InWord string

definition prepend :: "token list \<Rightarrow> token list option \<Rightarrow> token list option" where
  "prepend ts r = map_option (\<lambda>us. ts @ us) r"

text \<open>
  The scanner, one character at a time. A number or a word ends at white space or
  at a token of one character; \<open>None\<close> is a lexical error.
\<close>

fun lex :: "lex_mode \<Rightarrow> string \<Rightarrow> token list option" where
  "lex Top [] = Some []"
| "lex (InNum n) [] = Some [TNum n]"
| "lex (InWord w) [] = Some [TWord w]"
| "lex m [] = None"
| "lex Top (c # cs) =
     (if c = CHR 0x22 then lex (InStr []) cs
      else if is_digit c \<or> c = CHR ''-'' then lex (InNum [c]) cs
      else if is_letter c then lex (InWord [c]) cs
      else (case punct c of None \<Rightarrow> None | Some ts \<Rightarrow> prepend ts (lex Top cs)))"
| "lex (InStr s) (c # cs) =
     (if c = CHR 0x22 then prepend [TStr s] (lex Top cs)
      else if c = CHR 0x5C then lex (InEsc s) cs
      else if of_char c < (32::nat) then None
      else lex (InStr (s @ [c])) cs)"
| "lex (InEsc s) (c # cs) =
     (if c = CHR ''u'' then lex (InHex s []) cs
      else (case escape c of None \<Rightarrow> None | Some d \<Rightarrow> lex (InStr (s @ [d])) cs))"
| "lex (InHex s ds) (c # cs) =
     (if \<not> is_hex c then None
      else if length ds < 3 then lex (InHex s (ds @ [c])) cs
      else lex (InStr (s @ code_unit (foldl (\<lambda>n d. 16 * n + hex_val d) 0 (ds @ [c])))) cs)"
| "lex (InNum n) (c # cs) =
     (if is_numchar c then lex (InNum (n @ [c])) cs
      else (case punct c of None \<Rightarrow> None | Some ts \<Rightarrow> prepend (TNum n # ts) (lex Top cs)))"
| "lex (InWord w) (c # cs) =
     (if is_letter c then lex (InWord (w @ [c])) cs
      else (case punct c of None \<Rightarrow> None | Some ts \<Rightarrow> prepend (TWord w # ts) (lex Top cs)))"

text \<open>
  A number literal: an optional minus, an integer part without a leading zero, an
  optional fraction, an optional exponent.
\<close>

definition exponent_ok :: "string \<Rightarrow> bool" where
  "exponent_ok r =
     (case r of
        [] \<Rightarrow> True
      | c # ds \<Rightarrow>
          (c = CHR ''e'' \<or> c = CHR ''E'')
          \<and> (let ds' = (case ds of [] \<Rightarrow> [] | d # rest \<Rightarrow>
                            if d = CHR ''+'' \<or> d = CHR ''-'' then rest else ds)
             in ds' \<noteq> [] \<and> list_all is_digit ds'))"

definition fraction_ok :: "string \<Rightarrow> bool" where
  "fraction_ok r =
     (case r of
        [] \<Rightarrow> True
      | c # ds \<Rightarrow>
          if c = CHR ''.''
          then takeWhile is_digit ds \<noteq> [] \<and> exponent_ok (dropWhile is_digit ds)
          else exponent_ok r)"

definition number_ok :: "string \<Rightarrow> bool" where
  "number_ok n =
     (let m = (case n of [] \<Rightarrow> [] | c # cs \<Rightarrow> if c = CHR ''-'' then cs else n);
          i = takeWhile is_digit m
      in i \<noteq> [] \<and> (length i = 1 \<or> \<not> prefix ''0'' i) \<and> fraction_ok (dropWhile is_digit m))"

definition number_text :: "string \<Rightarrow> string" where
  "number_text n =
     (if n = ''-0'' then ''0''
      else if list_all (\<lambda>c. is_digit c \<or> c = CHR ''-'') n \<and> length n \<le> 15 then n
      else undefined)"

text \<open>
  The recogniser keeps a stack of the containers that are open: an array with its
  elements so far, an object with its members so far and the key that waits for
  its value.
\<close>

datatype frame = FArr "jsval list" | FObj "(string \<times> jsval) list" "string option"

datatype expect = PValue | PFirstElem | PFirstKey | PKey | PColon | PAfter | PDone jsval

text \<open>A value is complete: it goes into the enclosing container, or is the result.\<close>

fun complete :: "jsval \<Rightarrow> frame list \<Rightarrow> (expect \<times> frame list) option" where
  "complete v [] = Some (PDone v, [])"
| "complete v (FArr xs # st) = Some (PAfter, FArr (xs @ [v]) # st)"
| "complete v (FObj kvs (Some k) # st) = Some (PAfter, FObj (set_field kvs k v) None # st)"
| "complete v (FObj kvs None # st) = None"

definition scalar :: "token \<Rightarrow> jsval option" where
  "scalar t =
     (case t of
        TStr s \<Rightarrow> Some (Str s)
      | TNum n \<Rightarrow> if number_ok n then Some (Num (number_text n)) else None
      | TWord w \<Rightarrow>
          if w = ''true'' then Some (Bool True)
          else if w = ''false'' then Some (Bool False)
          else if w = ''null'' then Some Null
          else None
      | _ \<Rightarrow> None)"

definition begin_value :: "token \<Rightarrow> frame list \<Rightarrow> (expect \<times> frame list) option" where
  "begin_value t st =
     (if t = LBrack then Some (PFirstElem, FArr [] # st)
      else if t = LBrace then Some (PFirstKey, FObj [] None # st)
      else (case scalar t of None \<Rightarrow> None | Some v \<Rightarrow> complete v st))"

definition begin_key :: "token \<Rightarrow> frame list \<Rightarrow> (expect \<times> frame list) option" where
  "begin_key t st =
     (case (t, st) of
        (TStr k, FObj kvs None # st') \<Rightarrow> Some (PColon, FObj kvs (Some k) # st')
      | _ \<Rightarrow> None)"

definition close_array :: "frame list \<Rightarrow> (expect \<times> frame list) option" where
  "close_array st = (case st of FArr xs # st' \<Rightarrow> complete (Arr xs) st' | _ \<Rightarrow> None)"

definition close_object :: "frame list \<Rightarrow> (expect \<times> frame list) option" where
  "close_object st = (case st of FObj kvs None # st' \<Rightarrow> complete (Obj kvs) st' | _ \<Rightarrow> None)"

fun step :: "expect \<Rightarrow> frame list \<Rightarrow> token \<Rightarrow> (expect \<times> frame list) option" where
  "step PValue st t = begin_value t st"
| "step PFirstElem st t = (if t = RBrack then close_array st else begin_value t st)"
| "step PFirstKey st t = (if t = RBrace then close_object st else begin_key t st)"
| "step PKey st t = begin_key t st"
| "step PColon st t = (if t = Colon then Some (PValue, st) else None)"
| "step PAfter st t =
     (if t = Comma then
        (case st of
           FArr xs # st' \<Rightarrow> Some (PValue, st)
         | FObj kvs None # st' \<Rightarrow> Some (PKey, st)
         | _ \<Rightarrow> None)
      else if t = RBrack then close_array st
      else if t = RBrace then close_object st
      else None)"
| "step (PDone v) st t = None"

fun parse_tokens :: "expect \<Rightarrow> frame list \<Rightarrow> token list \<Rightarrow> jsval option" where
  "parse_tokens (PDone v) [] [] = Some v"
| "parse_tokens e st [] = None"
| "parse_tokens e st (t # ts) =
     (case step e st t of None \<Rightarrow> None | Some (e', st') \<Rightarrow> parse_tokens e' st' ts)"

definition JSON_parse :: "string \<Rightarrow> string + jsval" where
  "JSON_parse text =
     (case lex Top text of
        None \<Rightarrow> Inl ''Unexpected end of JSON input''
      | Some ts \<Rightarrow>
          (case parse_tokens PValue [] ts of
             None \<Rightarrow> Inl ''Unexpected end of JSON input''
           | Some v \<Rightarrow> Inr v))"

section \<open>Decoding a read\<close>

text \<open>
  The stream consumer makes one \<^verbatim>\<open>TextDecoder\<close> and calls \<^verbatim>\<open>decoder.decode(value)\<close> on
  the bytes of every read, without the \<^verbatim>\<open>stream\<close> option: each call decodes its
  bytes by themselves. The decoder is the UTF-8 decoder of the Encoding Standard.
  A byte sequence that is not well formed gives the replacement character
  U+FFFD, the byte that broke it is read again, a sequence that the end of the
  bytes cuts short gives one more U+FFFD, and a byte order mark at the head of
  the bytes is dropped. Text is held in UTF-8, so a well-formed sequence decodes
  to itself.
\<close>

text \<open>The range in which the next continuation byte must lie.\<close>

datatype bound = B80_BF | BA0_BF | B80_9F | B90_BF | B80_8F

fun within :: "bound \<Rightarrow> nat \<Rightarrow> bool" where
  "within B80_BF n = (0x80 \<le> n \<and> n \<le> 0xBF)"
| "within BA0_BF n = (0xA0 \<le> n \<and> n \<le> 0xBF)"
| "within B80_9F n = (0x80 \<le> n \<and> n \<le> 0x9F)"
| "within B90_BF n = (0x90 \<le> n \<and> n \<le> 0xBF)"
| "within B80_8F n = (0x80 \<le> n \<and> n \<le> 0x8F)"

text \<open>
  The state of the decoder between two bytes: nothing pending, or the bytes seen
  of a sequence, the number of bytes that must follow the next one, and the range
  of the next one.
\<close>

datatype pending = Clean | Pending string nat bound

definition replacement :: string where
  "replacement = [CHR 0xEF, CHR 0xBF, CHR 0xBD]"

text \<open>A byte read while nothing is pending: what it emits and the state after it.\<close>

definition lead :: "char \<Rightarrow> string \<times> pending" where
  "lead b =
     (let n = (of_char b :: nat) in
      if n < 0x80 then ([b], Clean)
      else if 0xC2 \<le> n \<and> n \<le> 0xDF then ([], Pending [b] 0 B80_BF)
      else if 0xE0 \<le> n \<and> n \<le> 0xEF then
        ([], Pending [b] 1 (if n = 0xE0 then BA0_BF else if n = 0xED then B80_9F else B80_BF))
      else if 0xF0 \<le> n \<and> n \<le> 0xF4 then
        ([], Pending [b] 2 (if n = 0xF0 then B90_BF else if n = 0xF4 then B80_8F else B80_BF))
      else (replacement, Clean))"

fun utf8 :: "pending \<Rightarrow> string \<Rightarrow> string" where
  "utf8 Clean [] = []"
| "utf8 (Pending seen more bnd) [] = replacement"
| "utf8 Clean (b # bs) = (case lead b of (out, st) \<Rightarrow> out @ utf8 st bs)"
| "utf8 (Pending seen more bnd) (b # bs) =
     (if within bnd (of_char b) then
        (if more = 0 then (seen @ [b]) @ utf8 Clean bs
         else utf8 (Pending (seen @ [b]) (more - 1) B80_BF) bs)
      else (case lead b of (out, st) \<Rightarrow> replacement @ out @ utf8 st bs))"

definition bom :: string where
  "bom = [CHR 0xEF, CHR 0xBB, CHR 0xBF]"

definition strip_bom :: "string \<Rightarrow> string" where
  "strip_bom v = (if prefix bom v then drop 3 v else v)"

text \<open>\<^verbatim>\<open>decoder.decode(value)\<close>, for the bytes of one read.\<close>

definition decode :: "string \<Rightarrow> string" where
  "decode v = utf8 Clean (strip_bom v)"

section \<open>The stream consumer\<close>

text \<open>
  \<^verbatim>\<open>api.sendMessageStream\<close> of the API client. The model begins where \<^verbatim>\<open>fetch\<close> has
  settled. A body is the list of what \<^verbatim>\<open>reader.read()\<close> gives, read by read, until it
  reports \<^verbatim>\<open>done\<close>: a chunk of bytes, or a rejection.

  The parameter \<open>parse\<close> stands for \<^verbatim>\<open>JSON.parse\<close>, with \<open>Inl m\<close> for a SyntaxError of
  message \<open>m\<close>. The four callbacks are optional, as the \<^verbatim>\<open>?.\<close> calls allow, and act on
  a state of the caller; those the application passes are state setters, which
  return normally.
\<close>

definition nl :: char where
  "nl = CHR 0x0A"

text \<open>\<^verbatim>\<open>s.split(sep)\<close> for a separator of one character: never the empty list.\<close>

fun split_on :: "char \<Rightarrow> string \<Rightarrow> string list" where
  "split_on sep [] = [[]]"
| "split_on sep (c # cs) =
     (if c = sep then [] # split_on sep cs
      else (case split_on sep cs of
              [] \<Rightarrow> [[c]]
            | l # ls \<Rightarrow> (c # l) # ls))"

record 's handlers =
  onStage1 :: "(jsval \<Rightarrow> 's \<Rightarrow> 's) option"
  onStage2 :: "(jsval \<Rightarrow> jsval \<Rightarrow> 's \<Rightarrow> 's) option"
  onStage3 :: "(jsval \<Rightarrow> 's \<Rightarrow> 's) option"
  onTitleUpdate :: "(jsval \<Rightarrow> 's \<Rightarrow> 's) option"

text \<open>\<^verbatim>\<open>f?.(x)\<close>: nothing happens when the callback is absent.\<close>

definition call1 :: "(jsval \<Rightarrow> 's \<Rightarrow> 's) option \<Rightarrow> jsval \<Rightarrow> 's \<Rightarrow> 's" where
  "call1 f x s = (case f of None \<Rightarrow> s | Some g \<Rightarrow> g x s)"

definition call2 :: "(jsval \<Rightarrow> jsval \<Rightarrow> 's \<Rightarrow> 's) option \<Rightarrow> jsval \<Rightarrow> jsval \<Rightarrow> 's \<Rightarrow> 's" where
  "call2 f x y s = (case f of None \<Rightarrow> s | Some g \<Rightarrow> g x y s)"

text \<open>How a statement ends: fall through, \<^verbatim>\<open>return\<close>, or \<^verbatim>\<open>throw\<close>.\<close>

datatype control = Continue | Return | Throw exn

text \<open>The argument of \<^verbatim>\<open>new Error\<close> in the \<^verbatim>\<open>error\<close> case: \<^verbatim>\<open>parsed.message || 'Unknown error'\<close>.\<close>

definition error_arg :: "jsval \<Rightarrow> jsval" where
  "error_arg parsed =
     (if truthy (field parsed ''message'') then field parsed ''message'' else Str ''Unknown error'')"

text \<open>
  The \<^verbatim>\<open>try\<close> block of the client with authentication (\<^verbatim>\<open>src/unnamed/part_001\<close>):
  parse the payload and dispatch on \<^verbatim>\<open>parsed.type\<close>.
\<close>

definition try_block ::
  "(string \<Rightarrow> string + jsval) \<Rightarrow> 's handlers \<Rightarrow> string \<Rightarrow> 's \<Rightarrow> 's \<times> control" where
  "try_block parse h data s =
     (case parse data of
        Inl m \<Rightarrow> (s, Throw (SyntaxError m))
      | Inr parsed \<Rightarrow>
          (case get parsed ''type'' of
             Inl e \<Rightarrow> (s, Throw e)
           | Inr t \<Rightarrow>
               if t = Str ''stage1_complete'' then
                 (call1 (onStage1 h) (field parsed ''data'') s, Continue)
               else if t = Str ''stage2_complete'' then
                 (call2 (onStage2 h) (field parsed ''data'') (field parsed ''metadata'') s, Continue)
               else if t = Str ''stage3_complete'' then
                 (call1 (onStage3 h) (field parsed ''data'') s, Continue)
               else if t = Str ''title_complete'' then
                 (call1 (onTitleUpdate h) (opt_get (field parsed ''data'') ''title'') s, Continue)
               else if t = Str ''complete'' then (s, Return)
               else if t = Str ''error'' then
                 (case toString (error_arg parsed) of
                    Inl e \<Rightarrow> (s, Throw e)
                  | Inr m \<Rightarrow> (s, Throw (Error m)))
               else (s, Continue)))"

text \<open>
  Its \<^verbatim>\<open>catch\<close> clause: an exception whose message is non-empty and does not
  contain \<^verbatim>\<open>JSON\<close> is thrown again, any other goes to \<^verbatim>\<open>console.error\<close>.
\<close>

definition rethrown :: "exn \<Rightarrow> bool" where
  "rethrown e = (message e \<noteq> [] \<and> \<not> includes_str (message e) ''JSON'')"

text \<open>
  The body of the \<^verbatim>\<open>for\<close> loop, on one line: the caller's state after it, what it
  wrote to the console, and how it ended.
\<close>

definition process_line ::
  "(string \<Rightarrow> string + jsval) \<Rightarrow> 's handlers \<Rightarrow> string \<Rightarrow> 's \<Rightarrow> 's \<times> exn list \<times> control" where
  "process_line parse h line s =
     (if startsWith line ''data: '' then
        (let data = drop 6 line in
         if data = ''[DONE]'' then (s, [], Return)
         else (case try_block parse h data s of
                 (s', Throw e) \<Rightarrow>
                   if rethrown e then (s', [], Throw e) else (s', [e], Continue)
               | (s', c) \<Rightarrow> (s', [], c)))
      else (s, [], Continue))"

text \<open>
  The same two in the client without authentication (\<^verbatim>\<open>src/unnamed/part_000\<close>):
  the title arrives as \<^verbatim>\<open>title_update\<close>, there is no case for \<^verbatim>\<open>complete\<close> or
  \<^verbatim>\<open>error\<close>, and the \<^verbatim>\<open>catch\<close> clause logs whatever it catches.
\<close>

definition try_block0 ::
  "(string \<Rightarrow> string + jsval) \<Rightarrow> 's handlers \<Rightarrow> string \<Rightarrow> 's \<Rightarrow> 's \<times> control" where
  "try_block0 parse h data s =
     (case parse data of
        Inl m \<Rightarrow> (s, Throw (SyntaxError m))
      | Inr parsed \<Rightarrow>
          (case get parsed ''type'' of
             Inl e \<Rightarrow> (s, Throw e)
           | Inr t \<Rightarrow>
               if t = Str ''stage1_complete'' then
                 (call1 (onStage1 h) (field parsed ''data'') s, Continue)
               else if t = Str ''stage2_complete'' then
                 (call2 (onStage2 h) (field parsed ''data'') (field parsed ''metadata'') s, Continue)
               else if t = Str ''stage3_complete'' then
                 (call1 (onStage3 h) (field parsed ''data'') s, Continue)
               else if t = Str ''title_update'' then
                 (call1 (onTitleUpdate h) (field parsed ''title'') s, Continue)
               else (s, Continue)))"

definition process_line0 ::
  "(string \<Rightarrow> string + jsval) \<Rightarrow> 's handlers \<Rightarrow> string \<Rightarrow> 's \<Rightarrow> 's \<times> exn list \<times> control" where
  "process_line0 parse h line s =
     (if startsWith line ''data: '' then
        (let data = drop 6 line in
         if data = ''[DONE]'' then (s, [], Return)
         else (case try_block0 parse h data s of
                 (s', Throw e) \<Rightarrow> (s', [e], Continue)
               | (s', c) \<Rightarrow> (s', [], c)))
      else (s, [], Continue))"

text \<open>The \<^verbatim>\<open>for\<close> loop over the lines of one chunk, for either loop body.\<close>

fun for_lines ::
  "(string \<Rightarrow> 's \<Rightarrow> 's \<times> exn list \<times> control) \<Rightarrow> string list \<Rightarrow> 's \<Rightarrow> 's \<times> exn list \<times> control" where
  "for_lines body [] s = (s, [], Continue)"
| "for_lines body (line # lines) s =
     (case body line s of
        (s', log, Continue) \<Rightarrow>
          (case for_lines body lines s' of (s'', log', c) \<Rightarrow> (s'', log @ log', c))
      | (s', log, c) \<Rightarrow> (s', log, c))"

datatype read = Chunk string | ReadError exn

text \<open>How the promise of an \<^verbatim>\<open>async\<close> function settles when it returns nothing.\<close>

datatype outcome = Resolved | Rejected exn

text \<open>
  The \<^verbatim>\<open>while (true)\<close> loop over the reads; the end of the list is \<^verbatim>\<open>done\<close>. Each
  chunk is decoded by itself and then split into lines.
\<close>

fun read_loop ::
  "(string \<Rightarrow> 's \<Rightarrow> 's \<times> exn list \<times> control) \<Rightarrow> read list \<Rightarrow> 's \<Rightarrow> 's \<times> exn list \<times> outcome" where
  "read_loop body [] s = (s, [], Resolved)"
| "read_loop body (ReadError e # reads) s = (s, [], Rejected e)"
| "read_loop body (Chunk chunk # reads) s =
     (case for_lines body (split_on nl (decode chunk)) s of
        (s', log, Continue) \<Rightarrow>
          (case read_loop body reads s' of (s'', log', r) \<Rightarrow> (s'', log @ log', r))
      | (s', log, Return) \<Rightarrow> (s', log, Resolved)
      | (s', log, Throw e) \<Rightarrow> (s', log, Rejected e))"

text \<open>What \<^verbatim>\<open>await fetch(...)\<close> gives: a rejection, or a response with its \<^verbatim>\<open>ok\<close> flag.\<close>

datatype fetched = FetchError exn | Response bool "read list"

definition stream_request ::
  "(string \<Rightarrow> 's \<Rightarrow> 's \<times> exn list \<times> control) \<Rightarrow> fetched \<Rightarrow> 's \<Rightarrow> 's \<times> exn list \<times> outcome" where
  "stream_request body response s =
     (case response of
        FetchError e \<Rightarrow> (s, [], Rejected e)
      | Response ok reads \<Rightarrow>
          if \<not> ok then (s, [], Rejected (Error ''Failed to send message''))
          else read_loop body reads s)"

definition sendMessageStream ::
  "(string \<Rightarrow> string + jsval) \<Rightarrow> 's handlers \<Rightarrow> fetched \<Rightarrow> 's \<Rightarrow> 's \<times> exn list \<times> outcome" where
  "sendMessageStream parse h response s = stream_request (process_line parse h) response s"

definition sendMessageStream0 ::
  "(string \<Rightarrow> string + jsval) \<Rightarrow> 's handlers \<Rightarrow> fetched \<Rightarrow> 's \<Rightarrow> 's \<times> exn list \<times> outcome" where
  "sendMessageStream0 parse h response s = stream_request (process_line0 parse h) response s"

text \<open>
  The callbacks as an observer sees them: each call is appended to a trace, in
  the order in which the calls are made.
\<close>

datatype event = Stage1 jsval | Stage2 jsval jsval | Stage3 jsval | TitleUpdate jsval

definition recorder :: "event list handlers" where
  "recorder = \<lparr> onStage1 = Some (\<lambda>d tr. tr @ [Stage1 d]),
                onStage2 = Some (\<lambda>d m tr. tr @ [Stage2 d m]),
                onStage3 = Some (\<lambda>d tr. tr @ [Stage3 d]),
                onTitleUpdate = Some (\<lambda>t tr. tr @ [TitleUpdate t]) \<rparr>"

text \<open>Delivering the bytes of a body in chunks, every read succeeding.\<close>

definition deliver :: "string list \<Rightarrow> fetched" where
  "deliver chunks = Response True (map Chunk chunks)"

text \<open>
  A chunking is aligned when every chunk but the last is empty or ends in the
  newline byte: no line is cut by a read. It is free of marks when no chunk after
  the first begins with a byte order mark.
\<close>

definition aligned :: "string list \<Rightarrow> bool" where
  "aligned chunks = (\<forall>c \<in> set (butlast chunks). c = [] \<or> last c = nl)"

definition no_later_bom :: "string list \<Rightarrow> bool" where
  "no_later_bom chunks = (\<forall>c \<in> set (tl chunks). \<not> prefix bom c)"

text \<open>The lines that the loop sees: each chunk decoded and split by itself.\<close>

definition lines_of :: "string list \<Rightarrow> string list" where
  "lines_of chunks = concat (map (\<lambda>c. split_on nl (decode c)) chunks)"

text \<open>The settled promise of the function from how its loops ended.\<close>

definition finish :: "'s \<times> exn list \<times> control \<Rightarrow> 's \<times> exn list \<times> outcome" where
  "finish r =
     (case r of
        (s, log, Throw e) \<Rightarrow> (s, log, Rejected e)
      | (s, log, c) \<Rightarrow> (s, log, Resolved))"

text \<open>
  A line that ends the stream: the sentinel, or a frame of type \<^verbatim>\<open>complete\<close>.
\<close>

definition is_sentinel :: "string \<Rightarrow> bool" where
  "is_sentinel line = (line = ''data: [DONE]'')"

definition is_complete_frame :: "(string \<Rightarrow> string + jsval) \<Rightarrow> string \<Rightarrow> bool" where
  "is_complete_frame parse line =
     (startsWith line ''data: '' \<and>
      (case parse (drop 6 line) of
         Inl m \<Rightarrow> False
       | Inr parsed \<Rightarrow> \<not> nullish parsed \<and> field parsed ''type'' = Str ''complete''))"

section \<open>The application component\<close>

text \<open>
  \<^verbatim>\<open>App\<close> keeps its state in React hooks; the record below has one field for each
  hook that the functions under study read or write, the value of the file input
  behind \<^verbatim>\<open>fileInputRef\<close> (absent while the input is not mounted), and what the
  page has shown through \<^verbatim>\<open>alert\<close> and \<^verbatim>\<open>console.error\<close>. A handler runs to its next
  \<^verbatim>\<open>await\<close> without interruption, so each piece between two awaits is a function
  from state to state, and a setter called with a value is an assignment.

  The backend's answers are taken at the types of its interface: a conversation
  is an object with an identifier, a title, a message count and, when fetched in
  full, its messages.
\<close>

record conversation =
  conv_id :: string
  conv_title :: jsval
  conv_message_count :: nat
  conv_messages :: "jsval list"

record app =
  conversations :: "conversation list"
  currentConversation :: "conversation option"
  messages :: "jsval list"
  input :: string
  loading :: bool
  stage1Results :: jsval
  stage2Results :: jsval
  stage3Result :: jsval
  metadata :: jsval
  activeTab :: nat
  currentStage :: "nat option"
  uploadingPdf :: bool
  pdfData :: jsval
  pdfFilename :: jsval
  fileInput :: "string option"
  alerts :: "string list"
  console :: "exn list"

definition resetCouncilState :: "app \<Rightarrow> app" where
  "resetCouncilState s =
     s\<lparr> stage1Results := Null, stage2Results := Null, stage3Result := Null,
        metadata := Null, currentStage := None, activeTab := 0 \<rparr>"

definition clearPdfState :: "app \<Rightarrow> app" where
  "clearPdfState s =
     s\<lparr> pdfData := Null, pdfFilename := Null,
        fileInput := (case fileInput s of None \<Rightarrow> None | Some v \<Rightarrow> Some []) \<rparr>"

text \<open>\<^verbatim>\<open>loadConversations\<close>, once \<^verbatim>\<open>api.listConversations\<close> has settled.\<close>

definition loadConversations :: "exn + conversation list \<Rightarrow> app \<Rightarrow> app" where
  "loadConversations listed s =
     (case listed of
        Inr convs \<Rightarrow> s\<lparr> conversations := convs \<rparr>
      | Inl e \<Rightarrow> s\<lparr> console := console s @ [e] \<rparr>)"

text \<open>
  \<^verbatim>\<open>createNewConversation\<close>, once \<^verbatim>\<open>api.createConversation\<close> has settled. The new
  conversation goes in front of the list that the handler captured when it was
  called, \<open>captured\<close>, which is the list of that moment and not of this one.
\<close>

definition createNewConversation :: "conversation list \<Rightarrow> exn + conversation \<Rightarrow> app \<Rightarrow> app" where
  "createNewConversation captured created s =
     (case created of
        Inr conv \<Rightarrow>
          clearPdfState (resetCouncilState
            (s\<lparr> conversations := conv # captured,
                currentConversation := Some conv,
                messages := [] \<rparr>))
      | Inl e \<Rightarrow> s\<lparr> console := console s @ [e] \<rparr>)"

text \<open>\<^verbatim>\<open>selectConversation\<close>, once \<^verbatim>\<open>api.getConversation\<close> has settled.\<close>

definition selectConversation :: "exn + conversation \<Rightarrow> app \<Rightarrow> app" where
  "selectConversation fetched s =
     (case fetched of
        Inr fullConv \<Rightarrow>
          clearPdfState (resetCouncilState
            (s\<lparr> currentConversation := Some fullConv,
                messages := conv_messages fullConv \<rparr>))
      | Inl e \<Rightarrow> s\<lparr> console := console s @ [e] \<rparr>)"

text \<open>
  \<^verbatim>\<open>s.toLowerCase()\<close> on the ASCII letters; the file-name test below needs no
  others, since no letter outside ASCII has \<^verbatim>\<open>p\<close>, \<^verbatim>\<open>d\<close> or \<^verbatim>\<open>f\<close> for its lower case.
\<close>

definition toLowerCase :: "string \<Rightarrow> string" where
  "toLowerCase s =
     map (\<lambda>c. case map_of (zip ''ABCDEFGHIJKLMNOPQRSTUVWXYZ'' ''abcdefghijklmnopqrstuvwxyz'') c of
                None \<Rightarrow> c
              | Some l \<Rightarrow> l) s"

text \<open>
  \<^verbatim>\<open>s.trim()\<close> removes white space and line terminators from both ends: the six of
  ASCII, and U+00A0, U+1680, U+2000 to U+200A, U+2028, U+2029, U+202F, U+205F,
  U+3000 and U+FEFF, which are two or three bytes in UTF-8.
\<close>

definition is_space :: "char \<Rightarrow> bool" where
  "is_space c = (c \<in> set [CHR 0x09, CHR 0x0A, CHR 0x0B, CHR 0x0C, CHR 0x0D, CHR 0x20])"

definition is_space2 :: "char \<Rightarrow> char \<Rightarrow> bool" where
  "is_space2 a b = (a = CHR 0xC2 \<and> b = CHR 0xA0)"

definition is_space3 :: "char \<Rightarrow> char \<Rightarrow> char \<Rightarrow> bool" where
  "is_space3 a b c =
     ((a = CHR 0xE1 \<and> b = CHR 0x9A \<and> c = CHR 0x80)
      \<or> (a = CHR 0xE2 \<and> b = CHR 0x80
          \<and> c \<in> set [CHR 0x80, CHR 0x81, CHR 0x82, CHR 0x83, CHR 0x84, CHR 0x85, CHR 0x86,
                       CHR 0x87, CHR 0x88, CHR 0x89, CHR 0x8A, CHR 0xA8, CHR 0xA9, CHR 0xAF])
      \<or> (a = CHR 0xE2 \<and> b = CHR 0x81 \<and> c = CHR 0x9F)
      \<or> (a = CHR 0xE3 \<and> b = CHR 0x80 \<and> c = CHR 0x80)
      \<or> (a = CHR 0xEF \<and> b = CHR 0xBB \<and> c = CHR 0xBF))"

fun trimStart :: "string \<Rightarrow> string" where
  "trimStart (a # b # c # s) =
     (if is_space a then trimStart (b # c # s)
      else if is_space2 a b then trimStart (c # s)
      else if is_space3 a b c then trimStart s
      else a # b # c # s)"
| "trimStart [a, b] =
     (if is_space a then trimStart [b]
      else if is_space2 a b then []
      else [a, b])"
| "trimStart [a] = (if is_space a then [] else [a])"
| "trimStart [] = []"

text \<open>The same from the end, on the reversed text: the last byte comes first.\<close>

fun trimEnd_rev :: "string \<Rightarrow> string" where
  "trimEnd_rev (c # b # a # s) =
     (if is_space c then trimEnd_rev (b # a # s)
      else if is_space2 b c then trimEnd_rev (a # s)
      else if is_space3 a b c then trimEnd_rev s
      else c # b # a # s)"
| "trimEnd_rev [c, b] =
     (if is_space c then trimEnd_rev [b]
      else if is_space2 b c then []
      else [c, b])"
| "trimEnd_rev [c] = (if is_space c then [] else [c])"
| "trimEnd_rev [] = []"

definition trim :: "string \<Rightarrow> string" where
  "trim s = rev (trimEnd_rev (rev (trimStart s)))"

definition endsWith :: "string \<Rightarrow> string \<Rightarrow> bool" where
  "endsWith s p = suffix p s"

text \<open>
  \<^verbatim>\<open>handlePdfUpload\<close>. The first argument is the name of the chosen file, if one was
  chosen; the second is what \<^verbatim>\<open>api.uploadPdf\<close> settles to. The part before the
  \<^verbatim>\<open>await\<close> and the part after it are given apart, and then in one piece for an
  upload that nothing interrupts.
\<close>

definition upload_accepted :: "string option \<Rightarrow> bool" where
  "upload_accepted file =
     (case file of None \<Rightarrow> False | Some name \<Rightarrow> endsWith (toLowerCase name) ''.pdf'')"

definition handlePdfUpload_begin :: "string option \<Rightarrow> app \<Rightarrow> app" where
  "handlePdfUpload_begin file s =
     (case file of
        None \<Rightarrow> s
      | Some name \<Rightarrow>
          if \<not> endsWith (toLowerCase name) ''.pdf''
          then s\<lparr> alerts := alerts s @ [''Please select a PDF file''] \<rparr>
          else s\<lparr> uploadingPdf := True \<rparr>)"

definition handlePdfUpload_settled :: "exn + jsval \<Rightarrow> app \<Rightarrow> app" where
  "handlePdfUpload_settled uploaded s =
     (case (case uploaded of
              Inl e \<Rightarrow> Inl e
            | Inr result \<Rightarrow>
                (case get result ''base64'' of
                   Inl e \<Rightarrow> Inl e
                 | Inr base64 \<Rightarrow> Inr (s\<lparr> pdfData := base64, pdfFilename := field result ''filename'' \<rparr>)))
      of
        Inl e \<Rightarrow> s\<lparr> alerts := alerts s @ [''Failed to upload PDF: '' @ message e],
                     uploadingPdf := False \<rparr>
      | Inr s' \<Rightarrow> s'\<lparr> uploadingPdf := False \<rparr>)"

definition handlePdfUpload :: "string option \<Rightarrow> exn + jsval \<Rightarrow> app \<Rightarrow> app" where
  "handlePdfUpload file uploaded s =
     (if upload_accepted file
      then handlePdfUpload_settled uploaded (handlePdfUpload_begin file s)
      else handlePdfUpload_begin file s)"

definition removePdf :: "app \<Rightarrow> app" where
  "removePdf s = clearPdfState s"

text \<open>
  \<^verbatim>\<open>sendMessage\<close>. What it captures when it is called goes into the request: the
  conversation, the trimmed input and the staged attachment. The page sign of the
  display text is held in its four UTF-8 bytes.
\<close>

record request =
  req_conversation :: conversation
  req_content :: string
  req_pdfData :: jsval
  req_pdfFilename :: jsval

datatype started = NotSent | Threw exn | Sent request

definition attached_mark :: string where
  "attached_mark = [CHR 0x0A, CHR 0x0A, CHR 0xF0, CHR 0x9F, CHR 0x93, CHR 0x84] @ '' Attached: ''"

definition displayContent :: "app \<Rightarrow> exn + string" where
  "displayContent s =
     (if truthy (pdfFilename s)
      then (case toString (pdfFilename s) of
              Inl e \<Rightarrow> Inl e
            | Inr name \<Rightarrow> Inr (trim (input s) @ attached_mark @ name))
      else Inr (trim (input s)))"

definition user_message :: "string \<Rightarrow> jsval" where
  "user_message content = Obj [(''role'', Str ''user''), (''content'', Str content)]"

text \<open>The part of \<^verbatim>\<open>sendMessage\<close> that runs before the request is made.\<close>

definition sendMessage_begin :: "app \<Rightarrow> app \<times> started" where
  "sendMessage_begin s =
     (case currentConversation s of
        None \<Rightarrow> (s, NotSent)
      | Some conv \<Rightarrow>
          if trim (input s) = [] \<or> loading s then (s, NotSent)
          else (case displayContent s of
                  Inl e \<Rightarrow> (s, Threw e)
                | Inr shown \<Rightarrow>
                    ((clearPdfState (resetCouncilState
                        (s\<lparr> messages := messages s @ [user_message shown],
                            input := [],
                            loading := True \<rparr>)))
                       \<lparr> currentStage := Some 1 \<rparr>,
                     Sent \<lparr> req_conversation = conv,
                            req_content = trim (input s),
                            req_pdfData = pdfData s,
                            req_pdfFilename = pdfFilename s \<rparr>)))"

text \<open>
  The four callbacks that \<^verbatim>\<open>sendMessage\<close> passes. They are closures: the title
  callback writes the conversation that was current when the message was sent.
  It also starts \<^verbatim>\<open>loadConversations\<close>, whose effect comes when that request
  settles.
\<close>

definition app_handlers :: "conversation \<Rightarrow> app handlers" where
  "app_handlers conv =
     \<lparr> onStage1 = Some (\<lambda>d s. s\<lparr> stage1Results := d, currentStage := Some 2 \<rparr>),
       onStage2 = Some (\<lambda>d m s. s\<lparr> stage2Results := d, metadata := m, currentStage := Some 3 \<rparr>),
       onStage3 = Some (\<lambda>d s. s\<lparr> stage3Result := d, currentStage := None \<rparr>),
       onTitleUpdate = Some (\<lambda>t s. s\<lparr> currentConversation := Some (conv\<lparr> conv_title := t \<rparr>) \<rparr>) \<rparr>"

text \<open>The \<^verbatim>\<open>catch\<close> and \<^verbatim>\<open>finally\<close> clauses, once the stream function has settled.\<close>

definition sendMessage_settled :: "outcome \<Rightarrow> app \<Rightarrow> app" where
  "sendMessage_settled r s =
     (case r of
        Resolved \<Rightarrow> s\<lparr> loading := False \<rparr>
      | Rejected e \<Rightarrow>
          s\<lparr> console := console s @ [e],
             alerts := alerts s @ [''Error: '' @ message e],
             loading := False \<rparr>)"

text \<open>
  A whole turn that nothing interrupts: \<open>fetch\<close> is the network's answer to the
  request.
\<close>

definition sendMessage ::
  "(string \<Rightarrow> string + jsval) \<Rightarrow> (request \<Rightarrow> fetched) \<Rightarrow> app \<Rightarrow> app" where
  "sendMessage parse fetch s =
     (case sendMessage_begin s of
        (s1, Sent req) \<Rightarrow>
          (case sendMessageStream parse (app_handlers (req_conversation req)) (fetch req) s1 of
             (s2, log, r) \<Rightarrow> sendMessage_settled r (s2\<lparr> console := console s2 @ log \<rparr>))
      | (s1, other) \<Rightarrow> s1)"

text \<open>
  One callback of a turn, as the application applies it; \<open>conv\<close> is the
  conversation the turn was sent in.
\<close>

fun apply_event :: "conversation \<Rightarrow> event \<Rightarrow> app \<Rightarrow> app" where
  "apply_event conv (Stage1 d) s = call1 (onStage1 (app_handlers conv)) d s"
| "apply_event conv (Stage2 d m) s = call2 (onStage2 (app_handlers conv)) d m s"
| "apply_event conv (Stage3 d) s = call1 (onStage3 (app_handlers conv)) d s"
| "apply_event conv (TitleUpdate t) s = call1 (onTitleUpdate (app_handlers conv)) t s"

fun is_stage_event :: "event \<Rightarrow> bool" where
  "is_stage_event (TitleUpdate t) = False"
| "is_stage_event e = True"

fun stage_no :: "event \<Rightarrow> nat" where
  "stage_no (Stage1 d) = 1"
| "stage_no (Stage2 d m) = 2"
| "stage_no (Stage3 d) = 3"
| "stage_no (TitleUpdate t) = 0"

text \<open>
  The events of a turn applied in their order of arrival, and the value of
  \<^verbatim>\<open>currentStage\<close> after each stage event.
\<close>

fun apply_events :: "conversation \<Rightarrow> event list \<Rightarrow> app \<Rightarrow> app" where
  "apply_events conv [] s = s"
| "apply_events conv (e # es) s = apply_events conv es (apply_event conv e s)"

fun stages_visited :: "conversation \<Rightarrow> event list \<Rightarrow> app \<Rightarrow> nat option list" where
  "stages_visited conv [] s = []"
| "stages_visited conv (e # es) s =
     (if is_stage_event e
      then currentStage (apply_event conv e s) # stages_visited conv es (apply_event conv e s)
      else stages_visited conv es (apply_event conv e s))"

text \<open>The stage state of the page: what the three stages have delivered so far.\<close>

definition stage_state :: "app \<Rightarrow> jsval \<times> jsval \<times> jsval \<times> jsval \<times> nat option" where
  "stage_state s = (stage1Results s, stage2Results s, stage3Result s, metadata s, currentStage s)"

text \<open>The state of the hooks when the component is first rendered.\<close>

definition app0 :: app where
  "app0 = \<lparr> conversations = [], currentConversation = None, messages = [], input = [],
            loading = False, stage1Results = Null, stage2Results = Null, stage3Result = Null,
            metadata = Null, activeTab = 0, currentStage = None, uploadingPdf = False,
            pdfData = Null, pdfFilename = Null, fileInput = None, alerts = [], console = [] \<rparr>"

text \<open>A network that answers every request in the same way.\<close>

definition answer :: "fetched \<Rightarrow> request \<Rightarrow> fetched" where
  "answer response req = response"

section \<open>Authentication\<close>

text \<open>
  The API client keeps the token in the module variable \<^verbatim>\<open>authToken\<close>; the provider
  keeps the user and its \<^verbatim>\<open>loading\<close> flag in hooks and the token under the key
  \<^verbatim>\<open>token\<close> of \<^verbatim>\<open>localStorage\<close>. The session is these four together.
\<close>

record session =
  stored_token :: "string option"
  authToken :: jsval
  user :: jsval
  auth_loading :: bool

text \<open>
  What \<^verbatim>\<open>fetch\<close> settles to for a request that is not streamed: a rejection, or a
  response with its \<^verbatim>\<open>ok\<close> flag, its status (the number as text), its status text
  and what \<^verbatim>\<open>response.json()\<close> settles to.
\<close>

record http =
  http_ok :: bool
  http_status :: string
  http_statusText :: string
  http_json :: "exn + jsval"

datatype reply = NetworkError exn | Http http

definition cannot_connect :: "string \<Rightarrow> exn" where
  "cannot_connect API_BASE =
     Error (''Cannot connect to server. Please check if the backend is running at '' @ API_BASE)"

text \<open>
  \<^verbatim>\<open>api.login\<close> and \<^verbatim>\<open>api.register\<close> have the same body but for the fallback text, which
  is the parameter \<open>fallback\<close> here. First the value of \<^verbatim>\<open>errorMessage\<close> for a response
  that is not ok: the inner \<^verbatim>\<open>try\<close> reads \<^verbatim>\<open>error.detail\<close> from the body, and its
  \<^verbatim>\<open>catch\<close> takes over when the body is not JSON or is null.
\<close>

definition errorMessage :: "string \<Rightarrow> http \<Rightarrow> jsval" where
  "errorMessage fallback r =
     (case (case http_json r of Inl e \<Rightarrow> Inl e | Inr error \<Rightarrow> get error ''detail'') of
        Inl e \<Rightarrow> Str (''Server error: '' @ http_status r @ '' '' @ http_statusText r)
      | Inr detail \<Rightarrow> if truthy detail then detail else Str fallback)"

text \<open>
  The outer \<^verbatim>\<open>try\<close> block: \<open>Inl\<close> is an exception thrown inside it, \<open>Inr\<close> is what
  it returns, the promise of \<^verbatim>\<open>response.json()\<close>, which is returned without
  \<^verbatim>\<open>await\<close> and so settles outside the block.
\<close>

definition auth_try :: "string \<Rightarrow> reply \<Rightarrow> exn + (exn + jsval)" where
  "auth_try fallback rep =
     (case rep of
        NetworkError e \<Rightarrow> Inl e
      | Http r \<Rightarrow>
          if \<not> http_ok r then
            (case toString (errorMessage fallback r) of
               Inl e \<Rightarrow> Inl e
             | Inr m \<Rightarrow> Inl (Error m))
          else Inr (http_json r))"

text \<open>
  With the outer \<^verbatim>\<open>catch\<close>: an exception whose message is non-empty and does not
  contain \<^verbatim>\<open>Server error\<close> is thrown again, any other is replaced.
\<close>

definition auth_request :: "string \<Rightarrow> string \<Rightarrow> reply \<Rightarrow> exn + jsval" where
  "auth_request API_BASE fallback rep =
     (case auth_try fallback rep of
        Inr settled \<Rightarrow> settled
      | Inl e \<Rightarrow>
          if message e \<noteq> [] \<and> \<not> includes_str (message e) ''Server error'' then Inl e
          else Inl (cannot_connect API_BASE))"

definition api_login :: "string \<Rightarrow> reply \<Rightarrow> exn + jsval" where
  "api_login API_BASE rep = auth_request API_BASE ''Failed to login'' rep"

definition api_register :: "string \<Rightarrow> reply \<Rightarrow> exn + jsval" where
  "api_register API_BASE rep = auth_request API_BASE ''Failed to register'' rep"

definition getCurrentUser :: "reply \<Rightarrow> exn + jsval" where
  "getCurrentUser rep =
     (case rep of
        NetworkError e \<Rightarrow> Inl e
      | Http r \<Rightarrow>
          if \<not> http_ok r then Inl (Error ''Failed to fetch user info'')
          else http_json r)"

text \<open>
  \<^verbatim>\<open>login\<close> and \<^verbatim>\<open>register\<close> of the provider, after the call of the API client has
  settled: the same three writes. \<^verbatim>\<open>localStorage.setItem\<close> stores the text of its
  argument.
\<close>

definition open_session :: "exn + jsval \<Rightarrow> session \<Rightarrow> session \<times> (exn + jsval)" where
  "open_session settled s =
     (case settled of
        Inl e \<Rightarrow> (s, Inl e)
      | Inr response \<Rightarrow>
          (case get response ''access_token'' of
             Inl e \<Rightarrow> (s, Inl e)
           | Inr access_token \<Rightarrow>
               (case toString access_token of
                  Inl e \<Rightarrow> (s, Inl e)
                | Inr text \<Rightarrow>
                    (s\<lparr> stored_token := Some text,
                        authToken := access_token,
                        user := field response ''user'' \<rparr>,
                     Inr response))))"

definition login :: "string \<Rightarrow> reply \<Rightarrow> session \<Rightarrow> session \<times> (exn + jsval)" where
  "login API_BASE rep s = open_session (api_login API_BASE rep) s"

definition register :: "string \<Rightarrow> reply \<Rightarrow> session \<Rightarrow> session \<times> (exn + jsval)" where
  "register API_BASE rep s = open_session (api_register API_BASE rep) s"

definition logout :: "session \<Rightarrow> session" where
  "logout s = s\<lparr> stored_token := None, authToken := Null, user := Null \<rparr>"

text \<open>
  The effect that the provider runs when it is mounted, with the reply to the
  request of \<^verbatim>\<open>api.getCurrentUser\<close>. The promise chain ends in a \<^verbatim>\<open>catch\<close> handler that
  returns normally, so the chain resolves. An empty stored token is falsy and
  counts as none.
\<close>

definition restore :: "reply \<Rightarrow> session \<Rightarrow> session \<times> outcome" where
  "restore rep s =
     (case stored_token s of
        None \<Rightarrow> (s\<lparr> auth_loading := False \<rparr>, Resolved)
      | Some token \<Rightarrow>
          if token = [] then (s\<lparr> auth_loading := False \<rparr>, Resolved)
          else (case getCurrentUser rep of
                  Inr userData \<Rightarrow>
                    (s\<lparr> authToken := Str token, user := userData, auth_loading := False \<rparr>,
                     Resolved)
                | Inl e \<Rightarrow>
                    (s\<lparr> stored_token := None, authToken := Null, auth_loading := False \<rparr>,
                     Resolved)))"

text \<open>The session when the provider is mounted, with what the storage holds.\<close>

definition session0 :: "string option \<Rightarrow> session" where
  "session0 stored =
     \<lparr> stored_token = stored, authToken = Null, user = Null, auth_loading = True \<rparr>"

section \<open>Properties of the stream consumer\<close>

subsection \<open>Lines and chunks\<close>

lemma split_on_nonempty: "split_on sep s \<noteq> []"
  by (induction s) (auto split: list.splits)

lemma split_on_append: "split_on sep (a @ sep # b) = split_on sep a @ split_on sep b"
proof (induction a)
  case Nil
  show ?case by simp
next
  case (Cons c a)
  then show ?case
    using split_on_nonempty [of sep a]
    by (cases "split_on sep a") auto
qed

lemma split_on_snoc: "split_on sep (a @ [sep]) = split_on sep a @ [[]]"
  using split_on_append [of sep a "[]"] by simp

lemma process_line_empty: "process_line parse h [] s = (s, [], Continue)"
  by (simp add: process_line_def startsWith_def)

lemma process_line0_empty: "process_line0 parse h [] s = (s, [], Continue)"
  by (simp add: process_line0_def startsWith_def)

text \<open>The loop over a list of lines that is given in two parts.\<close>

lemma for_lines_append:
  "for_lines body (a @ b) s =
     (case for_lines body a s of
        (s', log, Continue) \<Rightarrow>
          (case for_lines body b s' of (s'', log', c) \<Rightarrow> (s'', log @ log', c))
      | (s', log, c) \<Rightarrow> (s', log, c))"
proof (induction a arbitrary: s)
  case Nil
  show ?case by (simp split: prod.splits)
next
  case (Cons l a)
  show ?case
    by (simp add: Cons.IH split: prod.splits control.splits)
qed

lemma for_lines_skip_empty:
  assumes "\<And>s. body [] s = (s, [], Continue)"
  shows "for_lines body (filter (\<lambda>l. l \<noteq> []) ls) s = for_lines body ls s"
proof (induction ls arbitrary: s)
  case Nil
  show ?case by simp
next
  case (Cons l ls)
  show ?case
    by (cases "l = []") (simp_all add: Cons.IH assms split: prod.splits)
qed

text \<open>
  A \<^verbatim>\<open>return\<close> or a \<^verbatim>\<open>throw\<close> inside the inner loop leaves the function, so the two
  loops together are one loop over the lines of all chunks, each chunk decoded
  and split by itself.
\<close>

lemma read_loop_lines:
  "read_loop body (map Chunk cs) s = finish (for_lines body (lines_of cs) s)"
proof (induction cs arbitrary: s)
  case Nil
  show ?case by (simp add: finish_def lines_of_def)
next
  case (Cons c cs)
  then have "\<And>s. read_loop body (map Chunk cs) s
               = finish (for_lines body (concat (map (\<lambda>c. split_on nl (decode c)) cs)) s)"
    by (simp add: lines_of_def)
  then show ?case
    by (simp add: lines_of_def for_lines_append finish_def split: prod.splits control.splits)
qed

lemma stream_lines:
  "sendMessageStream parse h (deliver chunks) s
     = finish (for_lines (process_line parse h) (lines_of chunks) s)"
  "sendMessageStream0 parse h (deliver chunks) s
     = finish (for_lines (process_line0 parse h) (lines_of chunks) s)"
  by (simp_all add: sendMessageStream_def sendMessageStream0_def stream_request_def deliver_def
        read_loop_lines)

text \<open>Texts that end in a newline split as they do one by one, but for empty lines.\<close>

lemma aligned_lines:
  "aligned ts \<Longrightarrow>
     filter (\<lambda>l. l \<noteq> []) (split_on nl (concat ts))
       = filter (\<lambda>l. l \<noteq> []) (concat (map (split_on nl) ts))"
proof (induction ts)
  case Nil
  show ?case by simp
next
  case (Cons c cs)
  show ?case
  proof (cases "cs = []")
    case True
    then show ?thesis by simp
  next
    case False
    with Cons.prems have c: "c = [] \<or> last c = nl" and a: "aligned cs"
      by (auto simp: aligned_def)
    show ?thesis
    proof (cases "c = []")
      case True
      with Cons.IH [OF a] show ?thesis by simp
    next
      case False
      with c have "c = butlast c @ [nl]"
        by (metis append_butlast_last_id)
      then obtain a' where c': "c = a' @ [nl]" ..
      show ?thesis
        using Cons.IH [OF a]
        by (simp add: c' split_on_append split_on_snoc)
    qed
  qed
qed

subsection \<open>The decoder at a newline\<close>

text \<open>
  The newline byte is no continuation byte. Whatever is pending when it arrives is
  given up, the byte itself is emitted, and nothing is pending after it.
\<close>

lemma lead_nl: "lead nl = ([nl], Clean)"
  by (simp add: lead_def nl_def)

lemma not_within_nl: "\<not> within bnd (of_char nl)"
  by (cases bnd) (simp_all add: nl_def)

lemma utf8_nl: "utf8 st (a @ nl # b) = utf8 st (a @ [nl]) @ utf8 Clean b"
proof (induction a arbitrary: st)
  case Nil
  show ?case by (cases st) (simp_all add: lead_nl not_within_nl)
next
  case (Cons x a)
  show ?case
    by (cases st) (simp_all add: Cons.IH split: prod.splits)
qed

lemma utf8_snoc_nl: "utf8 st (a @ [nl]) \<noteq> [] \<and> last (utf8 st (a @ [nl])) = nl"
proof (induction a arbitrary: st)
  case Nil
  show ?case by (cases st) (simp_all add: lead_nl not_within_nl)
next
  case (Cons x a)
  show ?case
    by (cases st) (simp_all add: Cons.IH split: prod.splits)
qed

lemma utf8_ends_nl:
  assumes "c = [] \<or> last c = nl"
  shows "utf8 Clean c = [] \<or> last (utf8 Clean c) = nl"
proof (cases "c = []")
  case True
  then show ?thesis by simp
next
  case False
  with assms have "c = butlast c @ [nl]"
    by (metis append_butlast_last_id)
  then obtain a where "c = a @ [nl]" ..
  with utf8_snoc_nl [of Clean a] show ?thesis by simp
qed

lemma aligned_utf8:
  assumes "aligned cs"
  shows "aligned (map (utf8 Clean) cs)"
proof -
  have "utf8 Clean c = [] \<or> last (utf8 Clean c) = nl" if "c \<in> set (butlast cs)" for c
    using that assms by (intro utf8_ends_nl) (auto simp: aligned_def)
  then show ?thesis
    by (auto simp: aligned_def map_butlast [symmetric])
qed

lemma aligned_tail: "aligned (c # cs) \<Longrightarrow> aligned cs"
  by (cases "cs = []") (auto simp: aligned_def)

lemma aligned_head: "aligned (c # cs) \<Longrightarrow> cs \<noteq> [] \<Longrightarrow> c = [] \<or> last c = nl"
  by (auto simp: aligned_def)

lemma utf8_concat: "aligned cs \<Longrightarrow> utf8 Clean (concat cs) = concat (map (utf8 Clean) cs)"
proof (induction cs)
  case Nil
  show ?case by simp
next
  case (Cons c cs)
  note tail = Cons.IH [OF aligned_tail [OF Cons.prems]]
  show ?case
  proof (cases "cs = [] \<or> c = []")
    case True
    with tail show ?thesis by auto
  next
    case False
    with aligned_head [OF Cons.prems] have "c = butlast c @ [nl]"
      by (metis append_butlast_last_id)
    then obtain a where c: "c = a @ [nl]" ..
    show ?thesis
      using tail utf8_nl [of Clean a "concat cs"] by (simp add: c)
  qed
qed

text \<open>A byte order mark has no newline in it.\<close>

lemma bom_prefix_append:
  assumes "c \<noteq> []" and "last c = nl"
  shows "prefix bom (c @ r) = prefix bom c"
proof (cases c)
  case Nil
  with assms show ?thesis by simp
next
  case c1: (Cons x1 t1)
  show ?thesis
  proof (cases t1)
    case Nil
    with c1 assms show ?thesis by (simp add: bom_def nl_def)
  next
    case c2: (Cons x2 t2)
    show ?thesis
    proof (cases t2)
      case Nil
      with c1 c2 assms show ?thesis by (simp add: bom_def nl_def)
    next
      case c3: (Cons x3 t3)
      with c1 c2 show ?thesis by (simp add: bom_def)
    qed
  qed
qed

lemma strip_bom_append:
  assumes "c \<noteq> []" and "last c = nl"
  shows "strip_bom (c @ r) = strip_bom c @ r"
proof (cases "prefix bom c")
  case False
  with bom_prefix_append [OF assms, of r] show ?thesis by (simp add: strip_bom_def)
next
  case True
  then have "3 \<le> length c"
    by (auto simp: prefix_def bom_def)
  with True bom_prefix_append [OF assms, of r] show ?thesis by (simp add: strip_bom_def)
qed

lemma strip_bom_ends_nl:
  assumes "c = [] \<or> last c = nl"
  shows "strip_bom c = [] \<or> last (strip_bom c) = nl"
proof (cases "prefix bom c")
  case False
  with assms show ?thesis by (simp add: strip_bom_def)
next
  case True
  then obtain t where c: "c = bom @ t"
    by (auto simp: prefix_def)
  with assms show ?thesis
    by (cases "t = []") (auto simp: strip_bom_def bom_def nl_def)
qed

lemma no_bom_concat:
  "aligned cs \<Longrightarrow> \<forall>c \<in> set cs. \<not> prefix bom c \<Longrightarrow> \<not> prefix bom (concat cs)"
proof (induction cs)
  case Nil
  show ?case by (simp add: bom_def)
next
  case (Cons c cs)
  note tail = Cons.IH [OF aligned_tail [OF Cons.prems(1)]]
  show ?case
  proof (cases "cs = [] \<or> c = []")
    case True
    with tail Cons.prems(2) show ?thesis by auto
  next
    case False
    with aligned_head [OF Cons.prems(1)] have "c \<noteq> []" "last c = nl"
      by auto
    from bom_prefix_append [OF this, of "concat cs"] Cons.prems(2) show ?thesis
      by simp
  qed
qed

text \<open>
  Decoding the chunks one by one and decoding them as one: the mark at the head of
  the first chunk is dropped both times, and there is no other.
\<close>

lemma decode_chunks:
  assumes "aligned (c # cs)" and "no_later_bom (c # cs)"
  shows "map decode (c # cs) = map (utf8 Clean) (strip_bom c # cs)"
    and "decode (concat (c # cs)) = utf8 Clean (concat (strip_bom c # cs))"
    and "aligned (strip_bom c # cs)"
proof -
  from assms(2) have later: "\<forall>d \<in> set cs. \<not> prefix bom d"
    by (simp add: no_later_bom_def)
  then have "map decode cs = map (utf8 Clean) cs"
    by (simp add: decode_def strip_bom_def)
  then show "map decode (c # cs) = map (utf8 Clean) (strip_bom c # cs)"
    by (simp add: decode_def)
  have "strip_bom (c @ concat cs) = strip_bom c @ concat cs"
  proof (cases "cs = [] \<or> c = []")
    case False
    with aligned_head [OF assms(1)] have "c \<noteq> []" "last c = nl"
      by auto
    then show ?thesis by (rule strip_bom_append)
  next
    case True
    then show ?thesis
    proof
      assume "cs = []"
      then show ?thesis by simp
    next
      assume "c = []"
      moreover have "\<not> prefix bom (concat cs)"
        using aligned_tail [OF assms(1)] later by (rule no_bom_concat)
      ultimately show ?thesis by (simp add: strip_bom_def bom_def)
    qed
  qed
  then show "decode (concat (c # cs)) = utf8 Clean (concat (strip_bom c # cs))"
    by (simp add: decode_def)
  show "aligned (strip_bom c # cs)"
  proof (cases "cs = []")
    case True
    then show ?thesis by (simp add: aligned_def)
  next
    case False
    from strip_bom_ends_nl [OF aligned_head [OF assms(1) False]]
    have "strip_bom c = [] \<or> last (strip_bom c) = nl" .
    with aligned_tail [OF assms(1)] False show ?thesis
      by (auto simp: aligned_def)
  qed
qed

lemma lines_of_aligned:
  assumes "aligned chunks" and "no_later_bom chunks"
  shows "filter (\<lambda>l. l \<noteq> []) (lines_of [concat chunks])
           = filter (\<lambda>l. l \<noteq> []) (lines_of chunks)"
proof (cases chunks)
  case Nil
  then show ?thesis by (simp add: lines_of_def decode_def strip_bom_def bom_def)
next
  case (Cons c cs)
  let ?ts = "map (utf8 Clean) (strip_bom c # cs)"
  note d = decode_chunks [OF assms [unfolded Cons]]
  have "aligned ?ts"
    using d(3) by (rule aligned_utf8)
  then have "filter (\<lambda>l. l \<noteq> []) (split_on nl (concat ?ts))
               = filter (\<lambda>l. l \<noteq> []) (concat (map (split_on nl) ?ts))"
    by (rule aligned_lines)
  moreover have "lines_of [concat chunks] = split_on nl (concat ?ts)"
    using d(2) utf8_concat [OF d(3)] by (simp add: lines_of_def Cons)
  moreover have "lines_of chunks = concat (map (split_on nl) ?ts)"
  proof -
    have "lines_of chunks = concat (map (split_on nl) (map decode (c # cs)))"
      by (simp add: lines_of_def Cons comp_def)
    then show ?thesis by (simp only: d(1))
  qed
  ultimately show ?thesis by simp
qed

lemma stream_request_aligned:
  assumes "\<And>s. body [] s = (s, [], Continue)" and "aligned chunks" and "no_later_bom chunks"
  shows "stream_request body (deliver chunks) s = stream_request body (deliver [concat chunks]) s"
proof -
  have "for_lines body (lines_of chunks) s
          = for_lines body (filter (\<lambda>l. l \<noteq> []) (lines_of chunks)) s"
    by (simp add: for_lines_skip_empty [of body, OF assms(1)])
  also have "\<dots> = for_lines body (filter (\<lambda>l. l \<noteq> []) (lines_of [concat chunks])) s"
    by (simp add: lines_of_aligned [OF assms(2,3)])
  also have "\<dots> = for_lines body (lines_of [concat chunks]) s"
    by (simp add: for_lines_skip_empty [of body, OF assms(1)])
  finally show ?thesis
    using read_loop_lines [of body chunks s] read_loop_lines [of body "[concat chunks]" s]
    by (simp add: stream_request_def deliver_def)
qed

text \<open>Unfolding the reader and the consumer on a concrete stream.\<close>

lemmas reader_defs =
  JSON_parse_def punct_def is_ws_def is_digit_def is_letter_def is_numchar_def prepend_def
  escape_def is_hex_def hex_val_def code_unit_def scalar_def begin_value_def begin_key_def
  close_array_def close_object_def number_ok_def number_text_def fraction_ok_def
  exponent_ok_def

lemmas consumer_defs =
  sendMessageStream_def sendMessageStream0_def stream_request_def deliver_def
  process_line_def process_line0_def try_block_def try_block0_def startsWith_def nl_def
  get_def nullish_def opt_get_def call1_def call2_def recorder_def rethrown_def error_arg_def
  decode_def strip_bom_def bom_def lead_def replacement_def lines_of_def

subsection \<open>Chunk boundaries\<close>

text \<open>
  C1, as stated, fails. The consumer decodes and splits every chunk by itself and
  keeps nothing from one read to the next. The frame below is one
  \<^verbatim>\<open>stage1_complete\<close> event; cut after its second byte, neither piece begins with
  \<^verbatim>\<open>data: \<close> and no callback is called, while the same bytes in one chunk call
  \<^verbatim>\<open>onStage1\<close>.
\<close>

theorem chunking_counterexample:
  \<open>sendMessageStream JSON_parse recorder
      (deliver [''da'', ''ta: {"type":"stage1_complete","data":[]}'' @ [nl]]) []
      = ([], [], Resolved)
    \<and> sendMessageStream JSON_parse recorder
      (deliver [''da'' @ ''ta: {"type":"stage1_complete","data":[]}'' @ [nl]]) []
      = ([Stage1 (Arr [])], [], Resolved)\<close>
  by (simp add: reader_defs consumer_defs)

text \<open>
  A read that ends at a newline can still differ from the same bytes inside a
  longer read: the decoder drops a byte order mark at the head of every read. In
  two reads the mark before the second frame is dropped and the frame is
  delivered; in one read the mark stays in the line, which then does not begin
  with \<^verbatim>\<open>data: \<close>.
\<close>

lemma chunking_mark_dropped:
  \<open>sendMessageStream JSON_parse recorder
      (deliver [''data: {"type":"stage1_complete","data":[]}'' @ [nl],
                bom @ ''data: {"type":"stage3_complete","data":"final"}'' @ [nl]]) []
      = ([Stage1 (Arr []), Stage3 (Str ''final'')], [], Resolved)
    \<and> sendMessageStream JSON_parse recorder
      (deliver [''data: {"type":"stage1_complete","data":[]}'' @ [nl]
                @ bom @ ''data: {"type":"stage3_complete","data":"final"}'' @ [nl]]) []
      = ([Stage1 (Arr [])], [], Resolved)\<close>
  by (simp add: reader_defs consumer_defs)

text \<open>
  C1, amended: when no read cuts a line, that is when every chunk of bytes but the
  last is empty or ends in the newline byte, and no chunk after the first begins
  with a byte order mark, delivery in chunks and delivery of the same bytes in
  one chunk give the same calls in the same order, the same console output and
  the same outcome, for every parser, all callbacks and every state of the
  caller, in both copies of the client. The bytes need not be well-formed UTF-8.
\<close>

theorem chunking_aligned:
  assumes "aligned chunks" and "no_later_bom chunks"
  shows "sendMessageStream parse h (deliver chunks) s
           = sendMessageStream parse h (deliver [concat chunks]) s
       \<and> sendMessageStream0 parse h (deliver chunks) s
           = sendMessageStream0 parse h (deliver [concat chunks]) s"
  using stream_request_aligned [of "process_line parse h", OF process_line_empty assms]
    stream_request_aligned [of "process_line0 parse h", OF process_line0_empty assms]
  by (simp add: sendMessageStream_def sendMessageStream0_def)

text \<open>
  C1 on a stream: two reads that end at newlines, the second with a letter of two
  bytes in its payload.
\<close>

theorem chunking_aligned_witness:
  \<open>aligned [''data: {"type":"stage1_complete","data":[]}'' @ [nl],
             ''data: {"type":"stage3_complete","data":"caf'' @ [CHR 0xC3, CHR 0xA9] @ ''"}''
               @ [nl] @ ''data: [DONE]'' @ [nl]]
    \<and> no_later_bom [''data: {"type":"stage1_complete","data":[]}'' @ [nl],
             ''data: {"type":"stage3_complete","data":"caf'' @ [CHR 0xC3, CHR 0xA9] @ ''"}''
               @ [nl] @ ''data: [DONE]'' @ [nl]]
    \<and> sendMessageStream JSON_parse recorder
        (deliver [''data: {"type":"stage1_complete","data":[]}'' @ [nl],
                  ''data: {"type":"stage3_complete","data":"caf'' @ [CHR 0xC3, CHR 0xA9] @ ''"}''
                    @ [nl] @ ''data: [DONE]'' @ [nl]]) []
      = sendMessageStream JSON_parse recorder
        (deliver [concat [''data: {"type":"stage1_complete","data":[]}'' @ [nl],
                  ''data: {"type":"stage3_complete","data":"caf'' @ [CHR 0xC3, CHR 0xA9] @ ''"}''
                    @ [nl] @ ''data: [DONE]'' @ [nl]]]) []
    \<and> sendMessageStream JSON_parse recorder
        (deliver [''data: {"type":"stage1_complete","data":[]}'' @ [nl],
                  ''data: {"type":"stage3_complete","data":"caf'' @ [CHR 0xC3, CHR 0xA9] @ ''"}''
                    @ [nl] @ ''data: [DONE]'' @ [nl]]) []
      = ([Stage1 (Arr []), Stage3 (Str (''caf'' @ [CHR 0xC3, CHR 0xA9]))], [], Resolved)\<close>
proof -
  have a: \<open>aligned [''data: {"type":"stage1_complete","data":[]}'' @ [nl],
             ''data: {"type":"stage3_complete","data":"caf'' @ [CHR 0xC3, CHR 0xA9] @ ''"}''
               @ [nl] @ ''data: [DONE]'' @ [nl]]\<close>
    by (simp add: aligned_def)
  have b: \<open>no_later_bom [''data: {"type":"stage1_complete","data":[]}'' @ [nl],
             ''data: {"type":"stage3_complete","data":"caf'' @ [CHR 0xC3, CHR 0xA9] @ ''"}''
               @ [nl] @ ''data: [DONE]'' @ [nl]]\<close>
    by (simp add: no_later_bom_def bom_def)
  have v: \<open>sendMessageStream JSON_parse recorder
        (deliver [''data: {"type":"stage1_complete","data":[]}'' @ [nl],
                  ''data: {"type":"stage3_complete","data":"caf'' @ [CHR 0xC3, CHR 0xA9] @ ''"}''
                    @ [nl] @ ''data: [DONE]'' @ [nl]]) []
      = ([Stage1 (Arr []), Stage3 (Str (''caf'' @ [CHR 0xC3, CHR 0xA9]))], [], Resolved)\<close>
    by (simp add: reader_defs consumer_defs)
  from a b v chunking_aligned [OF a b, of JSON_parse recorder "[]"] show ?thesis
    by blast
qed

subsection \<open>The trace and the application\<close>

lemma apply_event_simps:
  "apply_event conv (Stage1 d) s = s\<lparr> stage1Results := d, currentStage := Some 2 \<rparr>"
  "apply_event conv (Stage2 d m) s = s\<lparr> stage2Results := d, metadata := m, currentStage := Some 3 \<rparr>"
  "apply_event conv (Stage3 d) s = s\<lparr> stage3Result := d, currentStage := None \<rparr>"
  "apply_event conv (TitleUpdate t) s = s\<lparr> currentConversation := Some (conv\<lparr> conv_title := t \<rparr>) \<rparr>"
  by (simp_all add: app_handlers_def call1_def call2_def)

text \<open>
  One \<^verbatim>\<open>try\<close> block makes the same calls whoever listens: the recorder appends
  them to its trace, the application applies them to its state.
\<close>

lemma try_block_trace:
  "\<exists>es c. (\<forall>tr. try_block parse recorder data tr = (tr @ es, c))
        \<and> (\<forall>s. try_block parse (app_handlers conv) data s = (apply_events conv es s, c))"
proof (cases "parse data")
  case (Inl m)
  then have "(\<forall>tr. try_block parse recorder data tr = (tr @ [], Throw (SyntaxError m)))
        \<and> (\<forall>s. try_block parse (app_handlers conv) data s = (apply_events conv [] s, Throw (SyntaxError m)))"
    by (simp add: try_block_def)
  then show ?thesis by blast
next
  case (Inr parsed)
  show ?thesis
  proof (cases "get parsed ''type''")
    case (Inl e)
    with Inr have "(\<forall>tr. try_block parse recorder data tr = (tr @ [], Throw e))
        \<and> (\<forall>s. try_block parse (app_handlers conv) data s = (apply_events conv [] s, Throw e))"
      by (simp add: try_block_def)
    then show ?thesis by blast
  next
    case t: (Inr t)
    let ?ev = "\<lambda>es c. (\<forall>tr. try_block parse recorder data tr = (tr @ es, c))
        \<and> (\<forall>s. try_block parse (app_handlers conv) data s = (apply_events conv es s, c))"
    consider (s1) "t = Str ''stage1_complete''" | (s2) "t = Str ''stage2_complete''"
      | (s3) "t = Str ''stage3_complete''" | (ti) "t = Str ''title_complete''"
      | (co) "t = Str ''complete''" | (er) "t = Str ''error''"
      | (ot) "t \<noteq> Str ''stage1_complete''" "t \<noteq> Str ''stage2_complete''"
          "t \<noteq> Str ''stage3_complete''" "t \<noteq> Str ''title_complete''"
          "t \<noteq> Str ''complete''" "t \<noteq> Str ''error''"
      by blast
    then show ?thesis
    proof cases
      case s1
      with Inr t have "?ev [Stage1 (field parsed ''data'')] Continue"
        by (simp add: try_block_def recorder_def call1_def app_handlers_def)
      then show ?thesis by blast
    next
      case s2
      with Inr t have "?ev [Stage2 (field parsed ''data'') (field parsed ''metadata'')] Continue"
        by (simp add: try_block_def recorder_def call2_def app_handlers_def)
      then show ?thesis by blast
    next
      case s3
      with Inr t have "?ev [Stage3 (field parsed ''data'')] Continue"
        by (simp add: try_block_def recorder_def call1_def app_handlers_def)
      then show ?thesis by blast
    next
      case ti
      with Inr t have "?ev [TitleUpdate (opt_get (field parsed ''data'') ''title'')] Continue"
        by (simp add: try_block_def recorder_def call1_def app_handlers_def)
      then show ?thesis by blast
    next
      case co
      with Inr t have "?ev [] Return"
        by (simp add: try_block_def)
      then show ?thesis by blast
    next
      case er
      show ?thesis
      proof (cases "toString (error_arg parsed)")
        case (Inl e)
        with Inr t er have "?ev [] (Throw e)"
          by (simp add: try_block_def)
        then show ?thesis by blast
      next
        case (Inr m)
        with \<open>parse data = Inr parsed\<close> t er have "?ev [] (Throw (Error m))"
          by (simp add: try_block_def)
        then show ?thesis by blast
      qed
    next
      case ot
      with Inr t have "?ev [] Continue"
        by (simp add: try_block_def)
      then show ?thesis by blast
    qed
  qed
qed


lemma process_line_trace:
  "\<exists>es log c. (\<forall>tr. process_line parse recorder line tr = (tr @ es, log, c))
        \<and> (\<forall>s. process_line parse (app_handlers conv) line s = (apply_events conv es s, log, c))"
proof (cases "startsWith line ''data: '' \<and> drop 6 line \<noteq> ''[DONE]''")
  case False
  then have "(\<forall>tr. process_line parse recorder line tr
                 = (tr @ [], [], if startsWith line ''data: '' then Return else Continue))
        \<and> (\<forall>s. process_line parse (app_handlers conv) line s
                 = (apply_events conv [] s, [], if startsWith line ''data: '' then Return else Continue))"
    by (auto simp: process_line_def)
  then show ?thesis by blast
next
  case True
  obtain es c where
    r: "\<And>tr. try_block parse recorder (drop 6 line) tr = (tr @ es, c)" and
    a: "\<And>s. try_block parse (app_handlers conv) (drop 6 line) s = (apply_events conv es s, c)"
    using try_block_trace [of parse "drop 6 line" conv] by blast
  show ?thesis
  proof (cases c)
    case (Throw e)
    with True r a have
      "(\<forall>tr. process_line parse recorder line tr
            = (tr @ es, if rethrown e then [] else [e], if rethrown e then Throw e else Continue))
       \<and> (\<forall>s. process_line parse (app_handlers conv) line s
            = (apply_events conv es s, if rethrown e then [] else [e],
               if rethrown e then Throw e else Continue))"
      by (simp add: process_line_def)
    then show ?thesis by blast
  next
    case Continue
    with True r a have
      "(\<forall>tr. process_line parse recorder line tr = (tr @ es, [], Continue))
       \<and> (\<forall>s. process_line parse (app_handlers conv) line s = (apply_events conv es s, [], Continue))"
      by (simp add: process_line_def)
    then show ?thesis by blast
  next
    case Return
    with True r a have
      "(\<forall>tr. process_line parse recorder line tr = (tr @ es, [], Return))
       \<and> (\<forall>s. process_line parse (app_handlers conv) line s = (apply_events conv es s, [], Return))"
      by (simp add: process_line_def)
    then show ?thesis by blast
  qed
qed

lemma apply_events_append:
  "apply_events conv (es @ fs) s = apply_events conv fs (apply_events conv es s)"
  by (induction es arbitrary: s) simp_all

lemma for_lines_trace:
  "\<exists>es log c. (\<forall>tr. for_lines (process_line parse recorder) lines tr = (tr @ es, log, c))
        \<and> (\<forall>s. for_lines (process_line parse (app_handlers conv)) lines s
                 = (apply_events conv es s, log, c))"
proof (induction lines)
  case Nil
  have "(\<forall>tr. for_lines (process_line parse recorder) [] tr = (tr @ [], [], Continue))
        \<and> (\<forall>s. for_lines (process_line parse (app_handlers conv)) [] s
                 = (apply_events conv [] s, [], Continue))"
    by simp
  then show ?case by blast
next
  case (Cons line lines)
  obtain es log c where
    r: "\<And>tr. process_line parse recorder line tr = (tr @ es, log, c)" and
    a: "\<And>s. process_line parse (app_handlers conv) line s = (apply_events conv es s, log, c)"
    using process_line_trace [of parse line conv] by blast
  obtain es' log' c' where
    r': "\<And>tr. for_lines (process_line parse recorder) lines tr = (tr @ es', log', c')" and
    a': "\<And>s. for_lines (process_line parse (app_handlers conv)) lines s
              = (apply_events conv es' s, log', c')"
    using Cons.IH by blast
  show ?case
  proof (cases "c = Continue")
    case True
    with r a r' a' have
      "(\<forall>tr. for_lines (process_line parse recorder) (line # lines) tr
            = (tr @ (es @ es'), log @ log', c'))
       \<and> (\<forall>s. for_lines (process_line parse (app_handlers conv)) (line # lines) s
            = (apply_events conv (es @ es') s, log @ log', c'))"
      by (simp add: apply_events_append)
    then show ?thesis by blast
  next
    case False
    with r a have
      "(\<forall>tr. for_lines (process_line parse recorder) (line # lines) tr = (tr @ es, log, c))
       \<and> (\<forall>s. for_lines (process_line parse (app_handlers conv)) (line # lines) s
            = (apply_events conv es s, log, c))"
      by (cases c) simp_all
    then show ?thesis by blast
  qed
qed

lemma read_loop_trace:
  "\<exists>es log r. (\<forall>tr. read_loop (process_line parse recorder) reads tr = (tr @ es, log, r))
        \<and> (\<forall>s. read_loop (process_line parse (app_handlers conv)) reads s
                 = (apply_events conv es s, log, r))"
proof (induction reads)
  case Nil
  have "(\<forall>tr. read_loop (process_line parse recorder) [] tr = (tr @ [], [], Resolved))
        \<and> (\<forall>s. read_loop (process_line parse (app_handlers conv)) [] s
                 = (apply_events conv [] s, [], Resolved))"
    by simp
  then show ?case by blast
next
  case (Cons rd reads)
  show ?case
  proof (cases rd)
    case (ReadError e)
    then have "(\<forall>tr. read_loop (process_line parse recorder) (rd # reads) tr = (tr @ [], [], Rejected e))
        \<and> (\<forall>s. read_loop (process_line parse (app_handlers conv)) (rd # reads) s
                 = (apply_events conv [] s, [], Rejected e))"
      by simp
    then show ?thesis by blast
  next
    case (Chunk chunk)
    obtain es log c where
      r: "\<And>tr. for_lines (process_line parse recorder) (split_on nl (decode chunk)) tr = (tr @ es, log, c)" and
      a: "\<And>s. for_lines (process_line parse (app_handlers conv)) (split_on nl (decode chunk)) s
              = (apply_events conv es s, log, c)"
      using for_lines_trace [of parse "split_on nl (decode chunk)" conv] by blast
    obtain es' log' r' where
      r': "\<And>tr. read_loop (process_line parse recorder) reads tr = (tr @ es', log', r')" and
      a': "\<And>s. read_loop (process_line parse (app_handlers conv)) reads s
              = (apply_events conv es' s, log', r')"
      using Cons.IH by blast
    show ?thesis
    proof (cases c)
      case Continue
      with Chunk r a r' a' have
        "(\<forall>tr. read_loop (process_line parse recorder) (rd # reads) tr
              = (tr @ (es @ es'), log @ log', r'))
         \<and> (\<forall>s. read_loop (process_line parse (app_handlers conv)) (rd # reads) s
              = (apply_events conv (es @ es') s, log @ log', r'))"
        by (simp add: apply_events_append)
      then show ?thesis by blast
    next
      case Return
      with Chunk r a have
        "(\<forall>tr. read_loop (process_line parse recorder) (rd # reads) tr = (tr @ es, log, Resolved))
         \<and> (\<forall>s. read_loop (process_line parse (app_handlers conv)) (rd # reads) s
              = (apply_events conv es s, log, Resolved))"
        by simp
      then show ?thesis by blast
    next
      case (Throw e)
      with Chunk r a have
        "(\<forall>tr. read_loop (process_line parse recorder) (rd # reads) tr = (tr @ es, log, Rejected e))
         \<and> (\<forall>s. read_loop (process_line parse (app_handlers conv)) (rd # reads) s
              = (apply_events conv es s, log, Rejected e))"
        by simp
      then show ?thesis by blast
    qed
  qed
qed

text \<open>
  The state of the application after a stream is its state before with the calls
  of the trace applied in their order.
\<close>
lemma sendMessageStream_trace:
  "\<exists>es log r. (\<forall>tr. sendMessageStream parse recorder response tr = (tr @ es, log, r))
        \<and> (\<forall>s. sendMessageStream parse (app_handlers conv) response s
                 = (apply_events conv es s, log, r))"
proof (cases response)
  case (FetchError e)
  then have "(\<forall>tr. sendMessageStream parse recorder response tr = (tr @ [], [], Rejected e))
        \<and> (\<forall>s. sendMessageStream parse (app_handlers conv) response s
                 = (apply_events conv [] s, [], Rejected e))"
    by (simp add: sendMessageStream_def stream_request_def)
  then show ?thesis by blast
next
  case (Response ok reads)
  show ?thesis
  proof (cases ok)
    case False
    with Response have
      "(\<forall>tr. sendMessageStream parse recorder response tr
            = (tr @ [], [], Rejected (Error ''Failed to send message'')))
        \<and> (\<forall>s. sendMessageStream parse (app_handlers conv) response s
            = (apply_events conv [] s, [], Rejected (Error ''Failed to send message'')))"
      by (simp add: sendMessageStream_def stream_request_def)
    then show ?thesis by blast
  next
    case True
    with Response show ?thesis
      using read_loop_trace [of parse reads conv]
      by (simp add: sendMessageStream_def stream_request_def)
  qed
qed

declare apply_event.simps [simp del]
declare apply_event_simps [simp]

subsection \<open>Malformed frames\<close>

lemma malformed_line:
  assumes "startsWith line ''data: ''" and "drop 6 line \<noteq> ''[DONE]''"
    and "parse (drop 6 line) = Inl m"
  shows "process_line0 parse h line s = (s, [SyntaxError m], Continue)"
    and "m = [] \<or> includes_str m ''JSON'' \<Longrightarrow>
           process_line parse h line s = (s, [SyntaxError m], Continue)"
  using assms
  by (auto simp: process_line_def process_line0_def try_block_def try_block0_def rethrown_def)

text \<open>
  A line that the loop body logs and passes over: the loop over the lines around
  it ends where it ends without the line, with one more entry on the console.
\<close>

lemma for_lines_logged:
  assumes "\<And>s. body line s = (s, [e], Continue)"
    and "for_lines body pre s = (s1, log1, Continue)"
    and "for_lines body post s1 = (s2, log2, c)"
  shows "for_lines body (pre @ line # post) s = (s2, log1 @ e # log2, c)"
    and "for_lines body (pre @ post) s = (s2, log1 @ log2, c)"
  using assms by (simp_all add: for_lines_append)

lemma for_lines_skip:
  assumes "\<And>s. body line s = (s, lg, Continue)"
  shows "fst (for_lines body (pre @ line # post) s) = fst (for_lines body (pre @ post) s)
       \<and> snd (snd (for_lines body (pre @ line # post) s)) = snd (snd (for_lines body (pre @ post) s))"
  by (simp add: for_lines_append assms split: prod.splits control.splits)

lemma finish_proj:
  "fst (finish r) = fst r"
  "snd (snd r) = snd (snd r') \<Longrightarrow> snd (snd (finish r)) = snd (snd (finish r'))"
  by (auto simp: finish_def split: prod.splits control.splits)

text \<open>
  C5: take two streams, in any chunkings, whose lines are the same but for one
  line of the first: a line that begins with \<^verbatim>\<open>data: \<close>, is not the sentinel, and
  whose payload the parser rejects. Then \<^verbatim>\<open>sendMessageStream\<close> on the first stream
  makes the same calls, leaves the caller in the same state and settles in the
  same way as on the second: the line calls nothing and raises nothing, and the
  frames after it are processed as if it were not there. Where the loop gets
  through the lines \<open>pre\<close> before it, the result is that of the lines \<open>post\<close> after
  it, run from the state after \<open>pre\<close>, with the SyntaxError written to the console
  between the entries of \<open>pre\<close> and those of \<open>post\<close>. In the client with
  authentication the \<^verbatim>\<open>catch\<close> clause tells a parse error by its message, so this
  needs the message of the SyntaxError to be empty or to contain \<^verbatim>\<open>JSON\<close>, as the
  messages of V8, SpiderMonkey and JavaScriptCore do; the other client logs
  whatever it catches.
\<close>

theorem malformed_frame_skipped:
  assumes "lines_of chunks = pre @ line # post"
    and "lines_of chunks' = pre @ post"
    and "startsWith line ''data: ''" and "drop 6 line \<noteq> ''[DONE]''"
    and "parse (drop 6 line) = Inl m"
    and "m = [] \<or> includes_str m ''JSON''"
  shows "(for_lines (process_line parse h) pre s = (s1, log1, Continue)
            \<and> for_lines (process_line parse h) post s1 = (s2, log2, c) \<longrightarrow>
          sendMessageStream parse h (deliver chunks) s
            = finish (s2, log1 @ SyntaxError m # log2, c)
          \<and> sendMessageStream parse h (deliver chunks') s = finish (s2, log1 @ log2, c))
       \<and> fst (sendMessageStream parse h (deliver chunks) s)
           = fst (sendMessageStream parse h (deliver chunks') s)
       \<and> snd (snd (sendMessageStream parse h (deliver chunks) s))
           = snd (snd (sendMessageStream parse h (deliver chunks') s))
       \<and> (for_lines (process_line0 parse h) pre s = (s1, log1, Continue)
            \<and> for_lines (process_line0 parse h) post s1 = (s2, log2, c) \<longrightarrow>
          sendMessageStream0 parse h (deliver chunks) s
            = finish (s2, log1 @ SyntaxError m # log2, c)
          \<and> sendMessageStream0 parse h (deliver chunks') s = finish (s2, log1 @ log2, c))
       \<and> fst (sendMessageStream0 parse h (deliver chunks) s)
           = fst (sendMessageStream0 parse h (deliver chunks') s)
       \<and> snd (snd (sendMessageStream0 parse h (deliver chunks) s))
           = snd (snd (sendMessageStream0 parse h (deliver chunks') s))"
proof -
  have a: "\<And>s. process_line parse h line s = (s, [SyntaxError m], Continue)"
    using assms(3-6) by (auto simp: process_line_def try_block_def rethrown_def)
  have b: "\<And>s. process_line0 parse h line s = (s, [SyntaxError m], Continue)"
    using assms(3-5) by (auto simp: process_line0_def try_block0_def)
  note k = for_lines_skip [of "process_line parse h" line "[SyntaxError m]" pre post s, OF a]
  note k0 = for_lines_skip [of "process_line0 parse h" line "[SyntaxError m]" pre post s, OF b]
  have 1: "sendMessageStream parse h (deliver chunks) s
            = finish (s2, log1 @ SyntaxError m # log2, c)
          \<and> sendMessageStream parse h (deliver chunks') s = finish (s2, log1 @ log2, c)"
    if "for_lines (process_line parse h) pre s = (s1, log1, Continue)"
      and "for_lines (process_line parse h) post s1 = (s2, log2, c)"
    using for_lines_logged [of "process_line parse h" line "SyntaxError m", OF a that]
    by (simp add: stream_lines assms(1,2))
  have 2: "sendMessageStream0 parse h (deliver chunks) s
            = finish (s2, log1 @ SyntaxError m # log2, c)
          \<and> sendMessageStream0 parse h (deliver chunks') s = finish (s2, log1 @ log2, c)"
    if "for_lines (process_line0 parse h) pre s = (s1, log1, Continue)"
      and "for_lines (process_line0 parse h) post s1 = (s2, log2, c)"
    using for_lines_logged [of "process_line0 parse h" line "SyntaxError m", OF b that]
    by (simp add: stream_lines assms(1,2))
  have 3: "fst (sendMessageStream parse h (deliver chunks) s)
           = fst (sendMessageStream parse h (deliver chunks') s)"
    "snd (snd (sendMessageStream parse h (deliver chunks) s))
           = snd (snd (sendMessageStream parse h (deliver chunks') s))"
    using k finish_proj(2) [of "for_lines (process_line parse h) (pre @ line # post) s"
        "for_lines (process_line parse h) (pre @ post) s"]
    by (simp_all add: stream_lines assms(1,2) finish_proj(1))
  have 4: "fst (sendMessageStream0 parse h (deliver chunks) s)
           = fst (sendMessageStream0 parse h (deliver chunks') s)"
    "snd (snd (sendMessageStream0 parse h (deliver chunks) s))
           = snd (snd (sendMessageStream0 parse h (deliver chunks') s))"
    using k0 finish_proj(2) [of "for_lines (process_line0 parse h) (pre @ line # post) s"
        "for_lines (process_line0 parse h) (pre @ post) s"]
    by (simp_all add: stream_lines assms(1,2) finish_proj(1))
  from 1 2 3 4 show ?thesis by blast
qed

text \<open>
  C5 on a stream of two reads: the second frame is cut short by the server; the
  first and the third are delivered, the error goes to the console, the promise
  resolves, and the stream without the bad frame gives the same calls.
\<close>

theorem malformed_frame_skipped_witness:
  \<open>sendMessageStream JSON_parse recorder
      (deliver [''data: {"type":"stage1_complete","data":[]}'' @ [nl],
                ''data: {"type":"stage2_comp'' @ [nl]
                @ ''data: {"type":"stage3_complete","data":"final"}'' @ [nl]]) []
    = ([Stage1 (Arr []), Stage3 (Str ''final'')],
       [SyntaxError ''Unexpected end of JSON input''], Resolved)
   \<and> sendMessageStream JSON_parse recorder
      (deliver [''data: {"type":"stage1_complete","data":[]}'' @ [nl],
                ''data: {"type":"stage3_complete","data":"final"}'' @ [nl]]) []
    = ([Stage1 (Arr []), Stage3 (Str ''final'')], [], Resolved)
   \<and> sendMessageStream0 JSON_parse recorder
      (deliver [''data: {"type":"stage1_complete","data":[]}'' @ [nl],
                ''data: {"type":"stage2_comp'' @ [nl]
                @ ''data: {"type":"stage3_complete","data":"final"}'' @ [nl]]) []
    = ([Stage1 (Arr []), Stage3 (Str ''final'')],
       [SyntaxError ''Unexpected end of JSON input''], Resolved)\<close>
proof -
  have l: \<open>lines_of
      [''data: {"type":"stage1_complete","data":[]}'' @ [nl],
       ''data: {"type":"stage2_comp'' @ [nl]
         @ ''data: {"type":"stage3_complete","data":"final"}'' @ [nl]]
    = [''data: {"type":"stage1_complete","data":[]}'', []]
      @ ''data: {"type":"stage2_comp''
      # [''data: {"type":"stage3_complete","data":"final"}'', []]\<close>
    by (simp add: lines_of_def decode_def strip_bom_def bom_def lead_def nl_def)
  have l': \<open>lines_of
      [''data: {"type":"stage1_complete","data":[]}'' @ [nl],
       ''data: {"type":"stage3_complete","data":"final"}'' @ [nl]]
    = [''data: {"type":"stage1_complete","data":[]}'', []]
      @ [''data: {"type":"stage3_complete","data":"final"}'', []]\<close>
    by (simp add: lines_of_def decode_def strip_bom_def bom_def lead_def nl_def)
  have 1: \<open>startsWith ''data: {"type":"stage2_comp'' ''data: ''\<close>
    by (simp add: startsWith_def)
  have 2: \<open>drop 6 ''data: {"type":"stage2_comp'' \<noteq> ''[DONE]''\<close>
    by simp
  have 3: \<open>JSON_parse (drop 6 ''data: {"type":"stage2_comp'') = Inl ''Unexpected end of JSON input''\<close>
    by (simp add: reader_defs)
  have 4: \<open>''Unexpected end of JSON input'' = [] \<or> includes_str ''Unexpected end of JSON input'' ''JSON''\<close>
    by simp
  have p: \<open>for_lines (process_line JSON_parse recorder)
             [''data: {"type":"stage1_complete","data":[]}'', []] []
           = ([Stage1 (Arr [])], [], Continue)\<close>
    by (simp add: reader_defs consumer_defs)
  have q: \<open>for_lines (process_line JSON_parse recorder)
             [''data: {"type":"stage3_complete","data":"final"}'', []] [Stage1 (Arr [])]
           = ([Stage1 (Arr []), Stage3 (Str ''final'')], [], Continue)\<close>
    by (simp add: reader_defs consumer_defs)
  have p0: \<open>for_lines (process_line0 JSON_parse recorder)
             [''data: {"type":"stage1_complete","data":[]}'', []] []
           = ([Stage1 (Arr [])], [], Continue)\<close>
    by (simp add: reader_defs consumer_defs)
  have q0: \<open>for_lines (process_line0 JSON_parse recorder)
             [''data: {"type":"stage3_complete","data":"final"}'', []] [Stage1 (Arr [])]
           = ([Stage1 (Arr []), Stage3 (Str ''final'')], [], Continue)\<close>
    by (simp add: reader_defs consumer_defs)
  note t = malformed_frame_skipped
    [where parse = JSON_parse and line = \<open>''data: {"type":"stage2_comp''\<close>
       and m = "''Unexpected end of JSON input''" and h = recorder and s = "[]"
       and ?s1.0 = "[Stage1 (Arr [])]" and ?log1.0 = "[]"
       and ?s2.0 = "[Stage1 (Arr []), Stage3 (Str ''final'')]" and ?log2.0 = "[]"
       and c = Continue, OF l l' 1 2 3 4]
  from t p q p0 q0 show ?thesis
    by (simp add: finish_def)
qed

subsection \<open>The end of the stream\<close>

lemma sentinel_line:
  "is_sentinel line \<Longrightarrow> process_line parse h line s = (s, [], Return)"
  "is_sentinel line \<Longrightarrow> process_line0 parse h line s = (s, [], Return)"
  "is_complete_frame parse line \<Longrightarrow> process_line parse h line s = (s, [], Return)"
  by (auto simp: is_sentinel_def is_complete_frame_def process_line_def process_line0_def
        startsWith_def try_block_def get_def Let_def split: sum.splits)

lemma for_lines_return:
  assumes "for_lines body pre s = (s', log, Continue)" and "body line s' = (s', [], Return)"
  shows "for_lines body (pre @ line # post) s = (s', log, Return)"
  using assms by (simp add: for_lines_append)

text \<open>
  C6: take any chunking, and let \<open>line\<close> be one of the lines that the chunks, decoded
  one by one, split into, with the lines \<open>pre\<close> before it and \<open>post\<close> after it. If the loop gets through
  \<open>pre\<close>, and \<open>line\<close> is the sentinel \<^verbatim>\<open>data: [DONE]\<close> or a frame of type \<^verbatim>\<open>complete\<close>,
  then \<^verbatim>\<open>sendMessageStream\<close> resolves, and the caller's state and the console are
  as they were after \<open>pre\<close>: nothing of \<open>post\<close>, in the same chunk or in a later one,
  is processed. The client without authentication has the sentinel only.
\<close>

theorem sentinel_ends_stream:
  assumes "lines_of chunks = pre @ line # post"
  shows "(for_lines (process_line parse h) pre s = (s', log, Continue)
            \<and> (is_sentinel line \<or> is_complete_frame parse line) \<longrightarrow>
          sendMessageStream parse h (deliver chunks) s = (s', log, Resolved))
       \<and> (for_lines (process_line0 parse h) pre s = (s', log, Continue) \<and> is_sentinel line \<longrightarrow>
          sendMessageStream0 parse h (deliver chunks) s = (s', log, Resolved))"
proof -
  have "sendMessageStream parse h (deliver chunks) s = (s', log, Resolved)"
    if "for_lines (process_line parse h) pre s = (s', log, Continue)"
      and "is_sentinel line \<or> is_complete_frame parse line"
  proof -
    from that(2) have "process_line parse h line s' = (s', [], Return)"
      by (auto simp: sentinel_line)
    from for_lines_return [OF that(1) this] show ?thesis
      by (simp add: sendMessageStream_def stream_request_def deliver_def read_loop_lines assms
            finish_def)
  qed
  moreover have "sendMessageStream0 parse h (deliver chunks) s = (s', log, Resolved)"
    if "for_lines (process_line0 parse h) pre s = (s', log, Continue)" and "is_sentinel line"
  proof -
    from that(2) have "process_line0 parse h line s' = (s', [], Return)"
      by (rule sentinel_line(2))
    from for_lines_return [OF that(1) this] show ?thesis
      by (simp add: sendMessageStream0_def stream_request_def deliver_def read_loop_lines assms
            finish_def)
  qed
  ultimately show ?thesis by blast
qed

text \<open>
  C6 on a stream: a third frame follows the end mark in the same chunk and is not
  delivered.
\<close>

theorem sentinel_ends_stream_witness:
  \<open>sendMessageStream JSON_parse recorder
      (deliver [''data: {"type":"stage1_complete","data":[]}'' @ [nl]
                @ ''data: {"type":"complete"}'' @ [nl]
                @ ''data: {"type":"stage3_complete","data":"late"}'' @ [nl]]) []
    = ([Stage1 (Arr [])], [], Resolved)
   \<and> sendMessageStream0 JSON_parse recorder
      (deliver [''data: {"type":"stage1_complete","data":[]}'' @ [nl]
                @ ''data: [DONE]'' @ [nl]
                @ ''data: {"type":"stage3_complete","data":"late"}'' @ [nl]]) []
    = ([Stage1 (Arr [])], [], Resolved)\<close>
proof -
  have l1: \<open>lines_of
               [''data: {"type":"stage1_complete","data":[]}'' @ [nl]
                @ ''data: {"type":"complete"}'' @ [nl]
                @ ''data: {"type":"stage3_complete","data":"late"}'' @ [nl]]
            = [''data: {"type":"stage1_complete","data":[]}'']
              @ ''data: {"type":"complete"}''
              # [''data: {"type":"stage3_complete","data":"late"}'', []]\<close>
    by (simp add: lines_of_def decode_def strip_bom_def bom_def lead_def nl_def)
  have l2: \<open>lines_of
               [''data: {"type":"stage1_complete","data":[]}'' @ [nl]
                @ ''data: [DONE]'' @ [nl]
                @ ''data: {"type":"stage3_complete","data":"late"}'' @ [nl]]
            = [''data: {"type":"stage1_complete","data":[]}'']
              @ ''data: [DONE]''
              # [''data: {"type":"stage3_complete","data":"late"}'', []]\<close>
    by (simp add: lines_of_def decode_def strip_bom_def bom_def lead_def nl_def)
  have p1: \<open>for_lines (process_line JSON_parse recorder)
              [''data: {"type":"stage1_complete","data":[]}''] []
            = ([Stage1 (Arr [])], [], Continue)\<close>
    by (simp add: reader_defs consumer_defs)
  have p2: \<open>for_lines (process_line0 JSON_parse recorder)
              [''data: {"type":"stage1_complete","data":[]}''] []
            = ([Stage1 (Arr [])], [], Continue)\<close>
    by (simp add: reader_defs consumer_defs)
  have c: \<open>is_complete_frame JSON_parse ''data: {"type":"complete"}''\<close>
    by (simp add: is_complete_frame_def startsWith_def nullish_def reader_defs)
  have d: \<open>is_sentinel ''data: [DONE]''\<close>
    by (simp add: is_sentinel_def)
  from p1 c sentinel_ends_stream [OF l1, of JSON_parse recorder "[]" "[Stage1 (Arr [])]" "[]"]
  have "sendMessageStream JSON_parse recorder
      (deliver [''data: {\"type\":\"stage1_complete\",\"data\":[]}'' @ [nl]
                @ ''data: {\"type\":\"complete\"}'' @ [nl]
                @ ''data: {\"type\":\"stage3_complete\",\"data\":\"late\"}'' @ [nl]]) []
    = ([Stage1 (Arr [])], [], Resolved)"
    by blast
  moreover from p2 d sentinel_ends_stream [OF l2, of JSON_parse recorder "[]" "[Stage1 (Arr [])]" "[]"]
  have "sendMessageStream0 JSON_parse recorder
      (deliver [''data: {\"type\":\"stage1_complete\",\"data\":[]}'' @ [nl]
                @ ''data: [DONE]'' @ [nl]
                @ ''data: {\"type\":\"stage3_complete\",\"data\":\"late\"}'' @ [nl]]) []
    = ([Stage1 (Arr [])], [], Resolved)"
    by blast
  ultimately show ?thesis by blast
qed

section \<open>Properties of the application component\<close>

subsection \<open>What the callbacks leave alone\<close>

lemma apply_events_frame:
  "messages (apply_events conv es s) = messages s"
  "loading (apply_events conv es s) = loading s"
  "pdfData (apply_events conv es s) = pdfData s"
  "pdfFilename (apply_events conv es s) = pdfFilename s"
  "alerts (apply_events conv es s) = alerts s"
  "console (apply_events conv es s) = console s"
proof (induction es arbitrary: s)
  case Nil
  {
    case 1 show ?case by simp
  next
    case 2 show ?case by simp
  next
    case 3 show ?case by simp
  next
    case 4 show ?case by simp
  next
    case 5 show ?case by simp
  next
    case 6 show ?case by simp
  }
next
  case (Cons e es)
  {
    case 1 show ?case by (cases e) (simp_all add: Cons.IH)
  next
    case 2 show ?case by (cases e) (simp_all add: Cons.IH)
  next
    case 3 show ?case by (cases e) (simp_all add: Cons.IH)
  next
    case 4 show ?case by (cases e) (simp_all add: Cons.IH)
  next
    case 5 show ?case by (cases e) (simp_all add: Cons.IH)
  next
    case 6 show ?case by (cases e) (simp_all add: Cons.IH)
  }
qed

lemma stream_frame:
  "messages (fst (sendMessageStream parse (app_handlers conv) response s)) = messages s"
  "loading (fst (sendMessageStream parse (app_handlers conv) response s)) = loading s"
  "pdfData (fst (sendMessageStream parse (app_handlers conv) response s)) = pdfData s"
  "pdfFilename (fst (sendMessageStream parse (app_handlers conv) response s)) = pdfFilename s"
  using sendMessageStream_trace [of parse response conv]
  by (auto simp: apply_events_frame)

subsection \<open>The order of the stages\<close>

lemma stages_visited_map:
  "stages_visited conv es s =
     map (\<lambda>e. if stage_no e = 1 then Some 2 else if stage_no e = 2 then Some 3 else None)
       (filter is_stage_event es)"
proof (induction es arbitrary: s)
  case Nil
  show ?case by simp
next
  case (Cons e es)
  show ?case by (cases e) (simp_all add: Cons.IH)
qed

lemma stage_order_kept:
  assumes "prefix (map stage_no (filter is_stage_event es)) [1, 2, 3]"
  shows "prefix (stages_visited conv es s) [Some 2, Some 3, None]"
proof -
  let ?next = "\<lambda>n::nat. if n = 1 then Some (2::nat) else if n = 2 then Some 3 else None"
  have "stages_visited conv es s = map ?next (map stage_no (filter is_stage_event es))"
    by (simp add: stages_visited_map comp_def)
  moreover have "prefix (map ?next (map stage_no (filter is_stage_event es))) (map ?next [1, 2, 3])"
    using assms by (rule map_mono_prefix)
  ultimately show ?thesis by simp
qed

text \<open>
  C2, amended: no callback looks at the state before it writes. A stage event is
  applied whenever it arrives: it stores its data and sets \<^verbatim>\<open>currentStage\<close> to 2, to
  3, or to null, whatever the stage was; a title event leaves the stage state
  alone. Sending sets the stage to 1. So when the stage events of a turn arrive
  in the order of the protocol, each at most once and none skipped, the stages
  visited after the first are a prefix of 2, 3, null.
\<close>

theorem stage_events_applied:
  "(snd (sendMessage_begin s) = Sent req \<longrightarrow> currentStage (fst (sendMessage_begin s)) = Some 1)
   \<and> stage_state (apply_event conv (Stage1 d) s)
       = (d, stage2Results s, stage3Result s, metadata s, Some 2)
   \<and> stage_state (apply_event conv (Stage2 d m) s)
       = (stage1Results s, d, stage3Result s, m, Some 3)
   \<and> stage_state (apply_event conv (Stage3 d) s)
       = (stage1Results s, stage2Results s, d, metadata s, None)
   \<and> stage_state (apply_event conv (TitleUpdate t) s) = stage_state s
   \<and> (prefix (map stage_no (filter is_stage_event es)) [1, 2, 3] \<longrightarrow>
        prefix (stages_visited conv es s) [Some 2, Some 3, None])"
  using stage_order_kept [of es conv s]
  by (auto simp: stage_state_def sendMessage_begin_def clearPdfState_def
        resetCouncilState_def split: option.splits if_splits sum.splits)

text \<open>Unfolding a whole turn on a concrete state.\<close>

lemmas app_defs = sendMessage_def sendMessage_begin_def sendMessage_settled_def displayContent_def
  trim_def is_space_def is_space2_def is_space3_def clearPdfState_def resetCouncilState_def app_handlers_def answer_def
  app0_def stage_state_def user_message_def selectConversation_def createNewConversation_def

text \<open>
  C2 on a turn: sending sets the stage to 1; the first two stages arrive in order,
  with a title between them, and the stages visited are 2 and 3.
\<close>

theorem stage_events_applied_witness:
  "snd (sendMessage_begin
          (app0\<lparr> currentConversation :=
                   Some \<lparr> conv_id = ''a'', conv_title = Str ''A'', conv_message_count = 0,
                          conv_messages = [] \<rparr>,
                input := ''question'' \<rparr>))
     = Sent \<lparr> req_conversation =
                \<lparr> conv_id = ''a'', conv_title = Str ''A'', conv_message_count = 0,
                  conv_messages = [] \<rparr>,
              req_content = ''question'', req_pdfData = Null, req_pdfFilename = Null \<rparr>
   \<and> currentStage (fst (sendMessage_begin
          (app0\<lparr> currentConversation :=
                   Some \<lparr> conv_id = ''a'', conv_title = Str ''A'', conv_message_count = 0,
                          conv_messages = [] \<rparr>,
                input := ''question'' \<rparr>))) = Some 1
   \<and> prefix (map stage_no (filter is_stage_event
         [Stage1 (Arr []), TitleUpdate (Str ''T''), Stage2 (Arr []) Null])) [1, 2, 3]
   \<and> prefix (stages_visited
         \<lparr> conv_id = ''a'', conv_title = Str ''A'', conv_message_count = 0, conv_messages = [] \<rparr>
         [Stage1 (Arr []), TitleUpdate (Str ''T''), Stage2 (Arr []) Null] app0)
       [Some 2, Some 3, None]"
proof -
  have b: "snd (sendMessage_begin
          (app0\<lparr> currentConversation :=
                   Some \<lparr> conv_id = ''a'', conv_title = Str ''A'', conv_message_count = 0,
                          conv_messages = [] \<rparr>,
                input := ''question'' \<rparr>))
     = Sent \<lparr> req_conversation =
                \<lparr> conv_id = ''a'', conv_title = Str ''A'', conv_message_count = 0,
                  conv_messages = [] \<rparr>,
              req_content = ''question'', req_pdfData = Null, req_pdfFilename = Null \<rparr>"
    by (simp add: app_defs)
  have p: "prefix (map stage_no (filter is_stage_event
         [Stage1 (Arr []), TitleUpdate (Str ''T''), Stage2 (Arr []) Null])) [1, 2, 3]"
    by simp
  from b stage_events_applied
    [where s = "app0\<lparr> currentConversation :=
                   Some \<lparr> conv_id = ''a'', conv_title = Str ''A'', conv_message_count = 0,
                          conv_messages = [] \<rparr>,
                input := ''question'' \<rparr>"
       and req = "\<lparr> req_conversation =
                \<lparr> conv_id = ''a'', conv_title = Str ''A'', conv_message_count = 0,
                  conv_messages = [] \<rparr>,
              req_content = ''question'', req_pdfData = Null, req_pdfFilename = Null \<rparr>"]
  have 1: "currentStage (fst (sendMessage_begin
          (app0\<lparr> currentConversation :=
                   Some \<lparr> conv_id = ''a'', conv_title = Str ''A'', conv_message_count = 0,
                          conv_messages = [] \<rparr>,
                input := ''question'' \<rparr>))) = Some 1"
    by blast
  from p stage_events_applied
    [where s = app0 and es = "[Stage1 (Arr []), TitleUpdate (Str ''T''), Stage2 (Arr []) Null]"
       and conv = "\<lparr> conv_id = ''a'', conv_title = Str ''A'', conv_message_count = 0,
                     conv_messages = [] \<rparr>"]
  have 2: "prefix (stages_visited
         \<lparr> conv_id = ''a'', conv_title = Str ''A'', conv_message_count = 0, conv_messages = [] \<rparr>
         [Stage1 (Arr []), TitleUpdate (Str ''T''), Stage2 (Arr []) Null] app0)
       [Some 2, Some 3, None]"
    by blast
  from b p 1 2 show ?thesis by blast
qed

text \<open>
  C2, as stated, fails: nothing guards the stage. In the turn below the backend
  sends the third stage first and the first stage after it; the late event is
  applied, stores its result and moves the stage from settled back to 2.
\<close>

theorem stage_order_counterexample:
  \<open>stage_state
     (sendMessage JSON_parse
        (answer (deliver [''data: {"type":"stage3_complete","data":"final"}'' @ [nl]
                          @ ''data: {"type":"stage1_complete","data":[]}'' @ [nl]
                          @ ''data: [DONE]'' @ [nl]]))
        (app0\<lparr> currentConversation :=
                  Some \<lparr> conv_id = ''a'', conv_title = Str ''A'', conv_message_count = 0,
                         conv_messages = [] \<rparr>,
               input := ''question'' \<rparr>))
    = (Arr [], Null, Str ''final'', Null, Some 2)\<close>
  by (simp add: app_defs reader_defs consumer_defs)

subsection \<open>A turn that is overtaken\<close>

text \<open>
  C3, as stated, fails: there is no stream token, and nothing stops a stream.
  Below, a message is sent in conversation \<open>a\<close>; while its stream is open the user
  selects conversation \<open>b\<close>, which clears the stage state; then the next read of the
  stream of \<open>a\<close> brings a \<^verbatim>\<open>stage1_complete\<close> frame. The loop of the stream goes on
  from the state it finds, and the event of \<open>a\<close> is applied to the page that shows
  \<open>b\<close>.
\<close>

theorem stale_events_counterexample:
  \<open>stage_state
      (selectConversation
         (Inr \<lparr> conv_id = ''b'', conv_title = Str ''B'', conv_message_count = 0, conv_messages = [] \<rparr>)
         (fst (sendMessage_begin
            (app0\<lparr> currentConversation :=
                     Some \<lparr> conv_id = ''a'', conv_title = Str ''A'', conv_message_count = 0,
                            conv_messages = [] \<rparr>,
                  input := ''question'' \<rparr>))))
     = (Null, Null, Null, Null, None)
   \<and> stage_state
      (fst (read_loop
         (process_line JSON_parse
            (app_handlers
               \<lparr> conv_id = ''a'', conv_title = Str ''A'', conv_message_count = 0,
                 conv_messages = [] \<rparr>))
         [Chunk (''data: {"type":"stage1_complete","data":["late"]}'' @ [nl])]
         (selectConversation
            (Inr \<lparr> conv_id = ''b'', conv_title = Str ''B'', conv_message_count = 0,
                   conv_messages = [] \<rparr>)
            (fst (sendMessage_begin
               (app0\<lparr> currentConversation :=
                        Some \<lparr> conv_id = ''a'', conv_title = Str ''A'', conv_message_count = 0,
                               conv_messages = [] \<rparr>,
                     input := ''question'' \<rparr>))))))
     = (Arr [Str ''late''], Null, Null, Null, Some 2)\<close>
  by (simp add: app_defs reader_defs consumer_defs)

text \<open>
  C3, amended. While a turn is in flight \<^verbatim>\<open>loading\<close> is set: sending sets it,
  neither a callback nor selecting or creating a conversation clears it, and
  \<^verbatim>\<open>sendMessage\<close> does nothing while it is set, so no second send begins before
  the stream has ended. No event of any turn, and no stream as a whole, changes
  the message history. Selecting or creating a conversation clears the stage
  state but does not silence the turn in flight: an event of that turn that
  arrives afterwards is applied as at any other time.
\<close>

theorem stale_events_applied:
  "(loading s \<longrightarrow> sendMessage_begin s = (s, NotSent))
   \<and> (snd (sendMessage_begin s) = Sent req \<longrightarrow> loading (fst (sendMessage_begin s)))
   \<and> loading (selectConversation fetched s) = loading s
   \<and> loading (createNewConversation captured created s) = loading s
   \<and> loading (apply_event conv e s) = loading s
   \<and> messages (apply_event conv e s) = messages s
   \<and> messages (fst (sendMessageStream parse (app_handlers conv) response s)) = messages s
   \<and> stage_state (apply_event conv (Stage1 d) (selectConversation (Inr fullConv) s))
       = (d, Null, Null, Null, Some 2)
   \<and> stage_state (apply_event conv (Stage1 d) (createNewConversation captured (Inr newConv) s))
       = (d, Null, Null, Null, Some 2)"
proof -
  have "loading (apply_event conv e s) = loading s" "messages (apply_event conv e s) = messages s"
    by (cases e; simp)+
  then show ?thesis
    by (auto simp: stream_frame sendMessage_begin_def selectConversation_def createNewConversation_def
          clearPdfState_def resetCouncilState_def stage_state_def
          split: option.splits sum.splits)
qed

text \<open>
  C3 on a turn: after sending, \<^verbatim>\<open>loading\<close> is set and a second \<^verbatim>\<open>sendMessage\<close> returns
  at once.
\<close>

theorem stale_events_applied_witness:
  "loading (fst (sendMessage_begin
      (app0\<lparr> currentConversation :=
               Some \<lparr> conv_id = ''a'', conv_title = Str ''A'', conv_message_count = 0,
                      conv_messages = [] \<rparr>,
            input := ''question'' \<rparr>)))
   \<and> sendMessage_begin (fst (sendMessage_begin
      (app0\<lparr> currentConversation :=
               Some \<lparr> conv_id = ''a'', conv_title = Str ''A'', conv_message_count = 0,
                      conv_messages = [] \<rparr>,
            input := ''question'' \<rparr>)))
     = (fst (sendMessage_begin
      (app0\<lparr> currentConversation :=
               Some \<lparr> conv_id = ''a'', conv_title = Str ''A'', conv_message_count = 0,
                      conv_messages = [] \<rparr>,
            input := ''question'' \<rparr>)), NotSent)"
proof -
  have b: "snd (sendMessage_begin
          (app0\<lparr> currentConversation :=
                   Some \<lparr> conv_id = ''a'', conv_title = Str ''A'', conv_message_count = 0,
                          conv_messages = [] \<rparr>,
                input := ''question'' \<rparr>))
     = Sent \<lparr> req_conversation =
                \<lparr> conv_id = ''a'', conv_title = Str ''A'', conv_message_count = 0,
                  conv_messages = [] \<rparr>,
              req_content = ''question'', req_pdfData = Null, req_pdfFilename = Null \<rparr>"
    by (simp add: app_defs)
  from b stale_events_applied
    [where s = "app0\<lparr> currentConversation :=
                   Some \<lparr> conv_id = ''a'', conv_title = Str ''A'', conv_message_count = 0,
                          conv_messages = [] \<rparr>,
                input := ''question'' \<rparr>"
       and req = "\<lparr> req_conversation =
                \<lparr> conv_id = ''a'', conv_title = Str ''A'', conv_message_count = 0,
                  conv_messages = [] \<rparr>,
              req_content = ''question'', req_pdfData = Null, req_pdfFilename = Null \<rparr>"]
  have l: "loading (fst (sendMessage_begin
      (app0\<lparr> currentConversation :=
               Some \<lparr> conv_id = ''a'', conv_title = Str ''A'', conv_message_count = 0,
                      conv_messages = [] \<rparr>,
            input := ''question'' \<rparr>)))"
    by blast
  from l stale_events_applied
    [where s = "fst (sendMessage_begin
      (app0\<lparr> currentConversation :=
               Some \<lparr> conv_id = ''a'', conv_title = Str ''A'', conv_message_count = 0,
                      conv_messages = [] \<rparr>,
            input := ''question'' \<rparr>))"]
  show ?thesis by blast
qed

subsection \<open>The staged attachment\<close>

lemma sendMessage_pdf:
  assumes "snd (sendMessage_begin s) = Sent req"
  shows "pdfData (sendMessage parse fetch s) = Null \<and> pdfFilename (sendMessage parse fetch s) = Null
       \<and> req_pdfData req = pdfData s \<and> req_pdfFilename req = pdfFilename s"
proof -
  obtain s1 where b: "sendMessage_begin s = (s1, Sent req)"
    using assms by (cases "sendMessage_begin s") simp
  then have s1: "pdfData s1 = Null" "pdfFilename s1 = Null"
    and rq: "req_pdfData req = pdfData s" "req_pdfFilename req = pdfFilename s"
    by (auto simp: sendMessage_begin_def clearPdfState_def resetCouncilState_def
          split: option.splits if_splits sum.splits)
  obtain s2 log r where
    st: "sendMessageStream parse (app_handlers (req_conversation req)) (fetch req) s1 = (s2, log, r)"
    by (cases "sendMessageStream parse (app_handlers (req_conversation req)) (fetch req) s1") auto
  with stream_frame(3,4) [of parse "req_conversation req" "fetch req" s1] s1
  have s2: "pdfData s2 = Null" "pdfFilename s2 = Null"
    by simp_all
  have "sendMessage parse fetch s = sendMessage_settled r (s2\<lparr> console := console s2 @ log \<rparr>)"
    by (simp add: sendMessage_def b st)
  with s2 rq show ?thesis
    by (cases r) (simp_all add: sendMessage_settled_def)
qed

text \<open>
  C9: the state has one slot for an attachment, \<^verbatim>\<open>pdfData\<close> with \<^verbatim>\<open>pdfFilename\<close>. An
  upload that succeeds writes both, whatever was staged before. \<^verbatim>\<open>sendMessage\<close>
  puts the staged attachment into its request and clears the slot before the
  request is made, so the slot is empty when the turn has ended, successfully or
  not. Selecting a conversation, creating one and removing the attachment clear
  it too. Each of these paths sets both the payload and the file name to null.
\<close>

theorem attachment_lifecycle:
  "(upload_accepted chosen \<and> \<not> nullish result \<longrightarrow>
      pdfData (handlePdfUpload chosen (Inr result) s) = field result ''base64''
      \<and> pdfFilename (handlePdfUpload chosen (Inr result) s) = field result ''filename'')
   \<and> (snd (sendMessage_begin s) = Sent req \<longrightarrow>
        req_pdfData req = pdfData s \<and> req_pdfFilename req = pdfFilename s
        \<and> pdfData (sendMessage parse fetch s) = Null
        \<and> pdfFilename (sendMessage parse fetch s) = Null)
   \<and> pdfData (selectConversation (Inr fullConv) s) = Null
   \<and> pdfFilename (selectConversation (Inr fullConv) s) = Null
   \<and> pdfData (createNewConversation captured (Inr newConv) s) = Null
   \<and> pdfFilename (createNewConversation captured (Inr newConv) s) = Null
   \<and> pdfData (removePdf s) = Null
   \<and> pdfFilename (removePdf s) = Null"
  using sendMessage_pdf [of s req parse fetch]
  by (auto simp: handlePdfUpload_def handlePdfUpload_begin_def handlePdfUpload_settled_def
        upload_accepted_def get_def selectConversation_def createNewConversation_def
        removePdf_def clearPdfState_def resetCouncilState_def split: option.splits)

text \<open>
  C9 on a page: an upload replaces the attachment that was staged; a turn sent
  with an attachment ends with the slot empty.
\<close>

theorem attachment_lifecycle_witness:
  "pdfData (handlePdfUpload (Some ''Report.PDF'')
      (Inr (Obj [(''base64'', Str ''QUJD''), (''filename'', Str ''Report.PDF'')]))
      (app0\<lparr> pdfData := Str ''b2xk'', pdfFilename := Str ''old.pdf'' \<rparr>)) = Str ''QUJD''
   \<and> pdfFilename (handlePdfUpload (Some ''Report.PDF'')
      (Inr (Obj [(''base64'', Str ''QUJD''), (''filename'', Str ''Report.PDF'')]))
      (app0\<lparr> pdfData := Str ''b2xk'', pdfFilename := Str ''old.pdf'' \<rparr>)) = Str ''Report.PDF''
   \<and> pdfData (sendMessage JSON_parse (answer (deliver [''data: [DONE]'' @ [nl]]))
      (app0\<lparr> currentConversation :=
               Some \<lparr> conv_id = ''a'', conv_title = Str ''A'', conv_message_count = 0,
                      conv_messages = [] \<rparr>,
            input := ''question'', pdfData := Str ''QUJD'', pdfFilename := Str ''r.pdf'' \<rparr>)) = Null
   \<and> pdfFilename (sendMessage JSON_parse (answer (deliver [''data: [DONE]'' @ [nl]]))
      (app0\<lparr> currentConversation :=
               Some \<lparr> conv_id = ''a'', conv_title = Str ''A'', conv_message_count = 0,
                      conv_messages = [] \<rparr>,
            input := ''question'', pdfData := Str ''QUJD'', pdfFilename := Str ''r.pdf'' \<rparr>)) = Null"
proof -
  have u: "upload_accepted (Some ''Report.PDF'')
           \<and> \<not> nullish (Obj [(''base64'', Str ''QUJD''), (''filename'', Str ''Report.PDF'')])"
    by (simp add: upload_accepted_def endsWith_def toLowerCase_def nullish_def suffix_def)
  have b: "snd (sendMessage_begin
      (app0\<lparr> currentConversation :=
               Some \<lparr> conv_id = ''a'', conv_title = Str ''A'', conv_message_count = 0,
                      conv_messages = [] \<rparr>,
            input := ''question'', pdfData := Str ''QUJD'', pdfFilename := Str ''r.pdf'' \<rparr>))
     = Sent \<lparr> req_conversation =
                \<lparr> conv_id = ''a'', conv_title = Str ''A'', conv_message_count = 0,
                  conv_messages = [] \<rparr>,
              req_content = ''question'', req_pdfData = Str ''QUJD'',
              req_pdfFilename = Str ''r.pdf'' \<rparr>"
    by (simp add: app_defs)
  from u attachment_lifecycle
    [where chosen = "Some ''Report.PDF''"
       and result = "Obj [(''base64'', Str ''QUJD''), (''filename'', Str ''Report.PDF'')]"
       and s = "app0\<lparr> pdfData := Str ''b2xk'', pdfFilename := Str ''old.pdf'' \<rparr>"]
  have 1: "pdfData (handlePdfUpload (Some ''Report.PDF'')
      (Inr (Obj [(''base64'', Str ''QUJD''), (''filename'', Str ''Report.PDF'')]))
      (app0\<lparr> pdfData := Str ''b2xk'', pdfFilename := Str ''old.pdf'' \<rparr>)) = Str ''QUJD''
   \<and> pdfFilename (handlePdfUpload (Some ''Report.PDF'')
      (Inr (Obj [(''base64'', Str ''QUJD''), (''filename'', Str ''Report.PDF'')]))
      (app0\<lparr> pdfData := Str ''b2xk'', pdfFilename := Str ''old.pdf'' \<rparr>)) = Str ''Report.PDF''"
    by simp
  from b attachment_lifecycle
    [where s = "app0\<lparr> currentConversation :=
               Some \<lparr> conv_id = ''a'', conv_title = Str ''A'', conv_message_count = 0,
                      conv_messages = [] \<rparr>,
            input := ''question'', pdfData := Str ''QUJD'', pdfFilename := Str ''r.pdf'' \<rparr>"
       and req = "\<lparr> req_conversation =
                \<lparr> conv_id = ''a'', conv_title = Str ''A'', conv_message_count = 0,
                  conv_messages = [] \<rparr>,
              req_content = ''question'', req_pdfData = Str ''QUJD'',
              req_pdfFilename = Str ''r.pdf'' \<rparr>"
       and parse = JSON_parse and fetch = "answer (deliver [''data: [DONE]'' @ [nl]])"]
  have 2: "pdfData (sendMessage JSON_parse (answer (deliver [''data: [DONE]'' @ [nl]]))
      (app0\<lparr> currentConversation :=
               Some \<lparr> conv_id = ''a'', conv_title = Str ''A'', conv_message_count = 0,
                      conv_messages = [] \<rparr>,
            input := ''question'', pdfData := Str ''QUJD'', pdfFilename := Str ''r.pdf'' \<rparr>)) = Null
   \<and> pdfFilename (sendMessage JSON_parse (answer (deliver [''data: [DONE]'' @ [nl]]))
      (app0\<lparr> currentConversation :=
               Some \<lparr> conv_id = ''a'', conv_title = Str ''A'', conv_message_count = 0,
                      conv_messages = [] \<rparr>,
            input := ''question'', pdfData := Str ''QUJD'', pdfFilename := Str ''r.pdf'' \<rparr>)) = Null"
    by blast
  from 1 2 show ?thesis by blast
qed

subsection \<open>Error frames\<close>

text \<open>
  C4, as stated, fails: the error does not carry the message whatever its
  content. The client throws \<^verbatim>\<open>parsed.message || 'Unknown error'\<close>, so an empty
  message is replaced.
\<close>

theorem error_frame_counterexample:
  \<open>sendMessageStream JSON_parse recorder
      (deliver [''data: {"type":"error","message":""}'' @ [nl]]) []
     = ([], [], Rejected (Error ''Unknown error''))\<close>
  by (simp add: reader_defs consumer_defs)

text \<open>
  The \<^verbatim>\<open>throw\<close> of the error case stands inside the \<^verbatim>\<open>try\<close> block, so the error
  passes through the \<^verbatim>\<open>catch\<close> clause that is meant for parse errors. A message
  that contains \<^verbatim>\<open>JSON\<close> is taken for one: the frame is logged, and the stream
  goes on.
\<close>

lemma error_frame_mentioning_JSON:
  \<open>sendMessageStream JSON_parse recorder
      (deliver [''data: {"type":"error","message":"Invalid JSON in request body"}'' @ [nl]
                @ ''data: {"type":"stage1_complete","data":[]}'' @ [nl]]) []
     = ([Stage1 (Arr [])], [Error ''Invalid JSON in request body''], Resolved)\<close>
  by (simp add: reader_defs consumer_defs)

lemma sendMessage_messages:
  "messages (sendMessage parse fetch a) = messages (fst (sendMessage_begin a))"
proof (cases "sendMessage_begin a")
  case (Pair a1 st)
  show ?thesis
  proof (cases st)
    case (Sent req)
    obtain s2 log r where
      st: "sendMessageStream parse (app_handlers (req_conversation req)) (fetch req) a1 = (s2, log, r)"
      by (cases "sendMessageStream parse (app_handlers (req_conversation req)) (fetch req) a1") auto
    with stream_frame(1) [of parse "req_conversation req" "fetch req" a1]
    have "messages s2 = messages a1" by simp
    with Pair Sent st show ?thesis
      by (cases r) (simp_all add: sendMessage_def sendMessage_settled_def)
  qed (simp_all add: sendMessage_def Pair)
qed

lemma error_line:
  assumes "startsWith line ''data: ''" and "drop 6 line \<noteq> ''[DONE]''"
    and "parse (drop 6 line) = Inr parsed" and "field parsed ''type'' = Str ''error''"
    and "toString (error_arg parsed) = Inr m" and "m \<noteq> []" and "\<not> includes_str m ''JSON''"
  shows "process_line parse h line s = (s, [], Throw (Error m))"
proof -
  from assms(4) have "\<not> nullish parsed"
    by (cases parsed) (auto simp: nullish_def)
  with assms show ?thesis
    by (simp add: process_line_def try_block_def get_def rethrown_def)
qed

text \<open>
  C4, amended: take any chunking, and let \<open>line\<close> be one of the lines that the
  chunks, decoded one by one, split into, a frame whose payload parses to an
  object of type \<^verbatim>\<open>error\<close>,
  with the lines \<open>pre\<close> before it. If the loop gets through \<open>pre\<close>, and the text \<open>m\<close>
  of \<^verbatim>\<open>parsed.message || 'Unknown error'\<close> is not empty and does not contain
  \<^verbatim>\<open>JSON\<close>, then \<^verbatim>\<open>sendMessageStream\<close> stops at that frame and rejects with an Error
  of message \<open>m\<close>: the text of the message field when that is truthy,
  \<^verbatim>\<open>Unknown error\<close> when it is not. The caller's state is as it was after \<open>pre\<close>.
  And no turn, this one included, adds to the message history after the user's
  own message.
\<close>

theorem error_frame_raised:
  assumes "lines_of chunks = pre @ line # post"
    and "for_lines (process_line parse h) pre s = (s', log, Continue)"
    and "startsWith line ''data: ''" and "drop 6 line \<noteq> ''[DONE]''"
    and "parse (drop 6 line) = Inr parsed" and "field parsed ''type'' = Str ''error''"
    and "toString (error_arg parsed) = Inr m" and "m \<noteq> []" and "\<not> includes_str m ''JSON''"
  shows "sendMessageStream parse h (deliver chunks) s = (s', log, Rejected (Error m))
       \<and> (truthy (field parsed ''message'') \<longrightarrow> toString (field parsed ''message'') = Inr m)
       \<and> (\<not> truthy (field parsed ''message'') \<longrightarrow> m = ''Unknown error'')
       \<and> messages (sendMessage parse fetch a) = messages (fst (sendMessage_begin a))"
proof -
  have "process_line parse h line s' = (s', [], Throw (Error m))"
    using assms(3-9) by (rule error_line)
  with assms(2) have "for_lines (process_line parse h) (pre @ line # post) s = (s', log, Throw (Error m))"
    by (simp add: for_lines_append)
  then have "sendMessageStream parse h (deliver chunks) s = (s', log, Rejected (Error m))"
    by (simp add: sendMessageStream_def stream_request_def deliver_def read_loop_lines assms(1)
          finish_def)
  moreover from assms(7) have "truthy (field parsed ''message'') \<longrightarrow> toString (field parsed ''message'') = Inr m"
    and "\<not> truthy (field parsed ''message'') \<longrightarrow> m = ''Unknown error''"
    by (auto simp: error_arg_def)
  ultimately show ?thesis
    using sendMessage_messages [of parse fetch a] by blast
qed

text \<open>
  C4 on a stream, the example of the specification: the first stage is delivered,
  the error frame rejects with \<^verbatim>\<open>rate limited\<close>, the frame after it is not read.
\<close>

theorem error_frame_raised_witness:
  \<open>sendMessageStream JSON_parse recorder
      (deliver [''data: {"type":"stage1_complete","data":[]}'' @ [nl],
                ''data: {"type":"error","message":"rate limited"}'' @ [nl]
                @ ''data: {"type":"stage3_complete","data":"late"}'' @ [nl]]) []
     = ([Stage1 (Arr [])], [], Rejected (Error ''rate limited''))\<close>
proof -
  have l: \<open>lines_of
              [''data: {"type":"stage1_complete","data":[]}'' @ [nl],
               ''data: {"type":"error","message":"rate limited"}'' @ [nl]
                @ ''data: {"type":"stage3_complete","data":"late"}'' @ [nl]]
           = [''data: {"type":"stage1_complete","data":[]}'', []]
             @ ''data: {"type":"error","message":"rate limited"}''
             # [''data: {"type":"stage3_complete","data":"late"}'', []]\<close>
    by (simp add: lines_of_def decode_def strip_bom_def bom_def lead_def nl_def)
  have p: \<open>for_lines (process_line JSON_parse recorder)
             [''data: {"type":"stage1_complete","data":[]}'', []] []
           = ([Stage1 (Arr [])], [], Continue)\<close>
    by (simp add: reader_defs consumer_defs)
  have 1: \<open>startsWith ''data: {"type":"error","message":"rate limited"}'' ''data: ''\<close>
    by (simp add: startsWith_def)
  have 2: \<open>drop 6 ''data: {"type":"error","message":"rate limited"}'' \<noteq> ''[DONE]''\<close>
    by simp
  have 3: \<open>JSON_parse (drop 6 ''data: {"type":"error","message":"rate limited"}'')
            = Inr (Obj [(''type'', Str ''error''), (''message'', Str ''rate limited'')])\<close>
    by (simp add: reader_defs)
  have 4: "field (Obj [(''type'', Str ''error''), (''message'', Str ''rate limited'')]) ''type''
            = Str ''error''"
    by simp
  have 5: "toString (error_arg (Obj [(''type'', Str ''error''), (''message'', Str ''rate limited'')]))
            = Inr ''rate limited''"
    by (simp add: error_arg_def)
  have 6: "''rate limited'' \<noteq> []"
    by simp
  have 7: "\<not> includes_str ''rate limited'' ''JSON''"
    by simp
  from error_frame_raised
    [where parse = JSON_parse and h = recorder and s = "[]"
       and line = \<open>''data: {"type":"error","message":"rate limited"}''\<close>
       and parsed = "Obj [(''type'', Str ''error''), (''message'', Str ''rate limited'')]"
       and m = "''rate limited''", OF l p 1 2 3 4 5 6 7]
  show ?thesis by blast
qed

section \<open>Properties of authentication\<close>

subsection \<open>Failed login and registration\<close>

lemmas auth_defs = login_def register_def api_login_def api_register_def auth_request_def
  auth_try_def errorMessage_def open_session_def cannot_connect_def getCurrentUser_def
  restore_def session0_def get_def nullish_def

text \<open>
  C7, as stated, fails in what the error carries: when the server rejects the
  credentials and its body has no \<^verbatim>\<open>detail\<close>, the error carries the fixed text
  \<^verbatim>\<open>Failed to login\<close>, which is neither a detail of the server nor the message that
  the server cannot be reached.
\<close>

theorem login_failure_counterexample:
  "login ''http://localhost:8001''
     (Http \<lparr> http_ok = False, http_status = ''401'', http_statusText = ''Unauthorized'',
             http_json = Inr (Obj []) \<rparr>)
     (session0 None)
   = (session0 None, Inl (Error ''Failed to login''))
   \<and> field (Obj []) ''detail'' = Undefined
   \<and> Error ''Failed to login'' \<noteq> cannot_connect ''http://localhost:8001''"
  by (simp add: auth_defs)

text \<open>
  The outer \<^verbatim>\<open>catch\<close> replaces an exception only when its message is empty or
  contains \<^verbatim>\<open>Server error\<close>. A rejection of \<^verbatim>\<open>fetch\<close> has a message of its own (in
  Chrome \<^verbatim>\<open>Failed to fetch\<close>) and is thrown again unchanged.
\<close>

lemma network_failure_passes:
  "login ''http://localhost:8001'' (NetworkError (TypeError ''Failed to fetch'')) (session0 None)
   = (session0 None, Inl (TypeError ''Failed to fetch''))"
  by (simp add: auth_defs)

lemma open_session_atomic:
  "snd (open_session settled s) = Inl e \<Longrightarrow> fst (open_session settled s) = s"
  by (auto simp: open_session_def split: sum.splits)

lemma auth_request_rejected:
  assumes "\<not> http_ok r" and "http_json r = Inr body" and "\<not> nullish body"
  shows "truthy (field body ''detail'') \<Longrightarrow> toString (field body ''detail'') = Inr m \<Longrightarrow> m \<noteq> []
           \<Longrightarrow> \<not> includes_str m ''Server error''
           \<Longrightarrow> auth_request API_BASE fallback (Http r) = Inl (Error m)"
    and "\<not> truthy (field body ''detail'') \<Longrightarrow> fallback \<noteq> []
           \<Longrightarrow> \<not> includes_str fallback ''Server error''
           \<Longrightarrow> auth_request API_BASE fallback (Http r) = Inl (Error fallback)"
  using assms by (simp_all add: auth_request_def auth_try_def errorMessage_def get_def)

lemma auth_request_not_json:
  assumes "\<not> http_ok r"
    and "http_json r = Inl e \<or> (http_json r = Inr body \<and> nullish body)"
  shows "auth_request API_BASE fallback (Http r) = Inl (cannot_connect API_BASE)"
proof -
  have "includes_str (''Server error: '' @ t) ''Server error''" for t
    by simp
  with assms show ?thesis
    by (auto simp: auth_request_def auth_try_def errorMessage_def get_def)
qed

text \<open>
  The test of the outer \<^verbatim>\<open>catch\<close> is on the text alone, so it also takes a detail of
  the server for its own message: a detail whose text is empty or contains
  \<^verbatim>\<open>Server error\<close> is replaced by the message that the server cannot be reached.
\<close>

lemma detail_replaced:
  "login ''http://localhost:8001''
     (Http \<lparr> http_ok = False, http_status = ''500'', http_statusText = ''Internal Server Error'',
             http_json = Inr (Obj [(''detail'', Str ''Server error: database is down'')]) \<rparr>)
     (session0 None)
   = (session0 None, Inl (cannot_connect ''http://localhost:8001''))
   \<and> login ''http://localhost:8001''
     (Http \<lparr> http_ok = False, http_status = ''500'', http_statusText = ''Internal Server Error'',
             http_json = Inr (Obj [(''detail'', Arr [])]) \<rparr>)
     (session0 None)
   = (session0 None, Inl (cannot_connect ''http://localhost:8001''))"
  by (simp add: auth_defs)

text \<open>
  C7, amended. Whenever \<^verbatim>\<open>login\<close> or \<^verbatim>\<open>register\<close> fails, the session is as it was:
  stored token, token of the API client and user. When the server answers with a
  status that is not ok:

  \<^item> if the body is JSON, neither null nor undefined, and its \<^verbatim>\<open>detail\<close> is truthy and
    converts to a text that is not empty and does not contain \<^verbatim>\<open>Server error\<close>, the
    error carries that text;
  \<^item> if the body is JSON, neither null nor undefined, and its \<^verbatim>\<open>detail\<close> is absent or
    falsy, the error carries the fixed text \<^verbatim>\<open>Failed to login\<close> or
    \<^verbatim>\<open>Failed to register\<close>;
  \<^item> if the body is not JSON, or is null, the error carries the message that the
    server cannot be reached.
\<close>

theorem login_failure:
  "(snd (login API_BASE rep s) = Inl e \<longrightarrow> fst (login API_BASE rep s) = s)
   \<and> (snd (register API_BASE rep s) = Inl e \<longrightarrow> fst (register API_BASE rep s) = s)
   \<and> (\<not> http_ok r \<and> http_json r = Inr body \<and> \<not> nullish body
        \<and> truthy (field body ''detail'') \<and> toString (field body ''detail'') = Inr m
        \<and> m \<noteq> [] \<and> \<not> includes_str m ''Server error'' \<longrightarrow>
        login API_BASE (Http r) s = (s, Inl (Error m))
        \<and> register API_BASE (Http r) s = (s, Inl (Error m)))
   \<and> (\<not> http_ok r \<and> http_json r = Inr body \<and> \<not> nullish body
        \<and> \<not> truthy (field body ''detail'') \<longrightarrow>
        login API_BASE (Http r) s = (s, Inl (Error ''Failed to login''))
        \<and> register API_BASE (Http r) s = (s, Inl (Error ''Failed to register'')))
   \<and> (\<not> http_ok r \<and> (http_json r = Inl e' \<or> (http_json r = Inr body \<and> nullish body)) \<longrightarrow>
        login API_BASE (Http r) s = (s, Inl (cannot_connect API_BASE))
        \<and> register API_BASE (Http r) s = (s, Inl (cannot_connect API_BASE)))"
proof -
  have 1: "snd (login API_BASE rep s) = Inl e \<longrightarrow> fst (login API_BASE rep s) = s"
    and 2: "snd (register API_BASE rep s) = Inl e \<longrightarrow> fst (register API_BASE rep s) = s"
    using open_session_atomic by (auto simp: login_def register_def)
  have 3: "login API_BASE (Http r) s = (s, Inl (Error m))
        \<and> register API_BASE (Http r) s = (s, Inl (Error m))"
    if "\<not> http_ok r" "http_json r = Inr body" "\<not> nullish body"
      "truthy (field body ''detail'')" "toString (field body ''detail'') = Inr m"
      "m \<noteq> []" "\<not> includes_str m ''Server error''"
    using auth_request_rejected(1) [OF that(1-3), of m API_BASE] that(4-7)
    by (simp add: login_def register_def api_login_def api_register_def open_session_def)
  have 4: "login API_BASE (Http r) s = (s, Inl (Error ''Failed to login''))
        \<and> register API_BASE (Http r) s = (s, Inl (Error ''Failed to register''))"
    if "\<not> http_ok r" "http_json r = Inr body" "\<not> nullish body"
      "\<not> truthy (field body ''detail'')"
    using auth_request_rejected(2) [OF that(1-3), of "''Failed to login''" API_BASE]
      auth_request_rejected(2) [OF that(1-3), of "''Failed to register''" API_BASE] that(4)
    by (simp add: login_def register_def api_login_def api_register_def open_session_def)
  have 5: "login API_BASE (Http r) s = (s, Inl (cannot_connect API_BASE))
        \<and> register API_BASE (Http r) s = (s, Inl (cannot_connect API_BASE))"
    if "\<not> http_ok r" "http_json r = Inl e' \<or> (http_json r = Inr body \<and> nullish body)"
    using auth_request_not_json [OF that, of API_BASE]
    by (simp add: login_def register_def api_login_def api_register_def open_session_def)
  from 1 2 3 4 5 show ?thesis by blast
qed

text \<open>
  C7 on five replies: rejected credentials with a detail and without one, a
  gateway error whose body is not JSON, a body that is null, and a request that
  fails on the network. In each the session, with the token stored before, stays
  as it was.
\<close>

theorem login_failure_witness:
  "login ''http://localhost:8001''
     (Http \<lparr> http_ok = False, http_status = ''401'', http_statusText = ''Unauthorized'',
             http_json = Inr (Obj [(''detail'', Str ''Incorrect username or password'')]) \<rparr>)
     (session0 (Some ''old''))
   = (session0 (Some ''old''), Inl (Error ''Incorrect username or password''))
   \<and> login ''http://localhost:8001''
     (Http \<lparr> http_ok = False, http_status = ''401'', http_statusText = ''Unauthorized'',
             http_json = Inr (Obj []) \<rparr>)
     (session0 (Some ''old''))
   = (session0 (Some ''old''), Inl (Error ''Failed to login''))
   \<and> register ''http://localhost:8001''
     (Http \<lparr> http_ok = False, http_status = ''502'', http_statusText = ''Bad Gateway'',
             http_json = Inl (SyntaxError ''Unexpected token < in JSON at position 0'') \<rparr>)
     (session0 (Some ''old''))
   = (session0 (Some ''old''), Inl (cannot_connect ''http://localhost:8001''))
   \<and> login ''http://localhost:8001''
     (Http \<lparr> http_ok = False, http_status = ''500'', http_statusText = ''Internal Server Error'',
             http_json = Inr Null \<rparr>)
     (session0 (Some ''old''))
   = (session0 (Some ''old''), Inl (cannot_connect ''http://localhost:8001''))
   \<and> snd (login ''http://localhost:8001'' (NetworkError (TypeError ''Failed to fetch''))
          (session0 (Some ''old''))) = Inl (TypeError ''Failed to fetch'')
   \<and> fst (login ''http://localhost:8001'' (NetworkError (TypeError ''Failed to fetch''))
          (session0 (Some ''old''))) = session0 (Some ''old'')"
proof -
  have a: "\<not> http_ok \<lparr> http_ok = False, http_status = ''401'', http_statusText = ''Unauthorized'',
             http_json = Inr (Obj [(''detail'', Str ''Incorrect username or password'')]) \<rparr>
     \<and> http_json \<lparr> http_ok = False, http_status = ''401'', http_statusText = ''Unauthorized'',
             http_json = Inr (Obj [(''detail'', Str ''Incorrect username or password'')]) \<rparr>
         = Inr (Obj [(''detail'', Str ''Incorrect username or password'')])
     \<and> \<not> nullish (Obj [(''detail'', Str ''Incorrect username or password'')])
     \<and> truthy (field (Obj [(''detail'', Str ''Incorrect username or password'')]) ''detail'')
     \<and> toString (field (Obj [(''detail'', Str ''Incorrect username or password'')]) ''detail'')
         = Inr ''Incorrect username or password''
     \<and> ''Incorrect username or password'' \<noteq> []
     \<and> \<not> includes_str ''Incorrect username or password'' ''Server error''"
    by (simp add: nullish_def)
  have b: "\<not> http_ok \<lparr> http_ok = False, http_status = ''502'', http_statusText = ''Bad Gateway'',
             http_json = Inl (SyntaxError ''Unexpected token < in JSON at position 0'') \<rparr>
     \<and> http_json \<lparr> http_ok = False, http_status = ''502'', http_statusText = ''Bad Gateway'',
             http_json = Inl (SyntaxError ''Unexpected token < in JSON at position 0'') \<rparr>
         = Inl (SyntaxError ''Unexpected token < in JSON at position 0'')"
    by simp
  have c: "\<not> http_ok \<lparr> http_ok = False, http_status = ''401'', http_statusText = ''Unauthorized'',
             http_json = Inr (Obj []) \<rparr>
     \<and> http_json \<lparr> http_ok = False, http_status = ''401'', http_statusText = ''Unauthorized'',
             http_json = Inr (Obj []) \<rparr> = Inr (Obj [])
     \<and> \<not> nullish (Obj [])
     \<and> \<not> truthy (field (Obj []) ''detail'')"
    by (simp add: nullish_def)
  have d: "snd (login ''http://localhost:8001'' (NetworkError (TypeError ''Failed to fetch''))
          (session0 (Some ''old''))) = Inl (TypeError ''Failed to fetch'')"
    by (simp add: auth_defs)
  have n: "\<not> http_ok \<lparr> http_ok = False, http_status = ''500'',
             http_statusText = ''Internal Server Error'', http_json = Inr Null \<rparr>
     \<and> http_json \<lparr> http_ok = False, http_status = ''500'',
             http_statusText = ''Internal Server Error'', http_json = Inr Null \<rparr> = Inr Null
     \<and> nullish Null"
    by (simp add: nullish_def)
  from a login_failure
    [where r = "\<lparr> http_ok = False, http_status = ''401'', http_statusText = ''Unauthorized'',
             http_json = Inr (Obj [(''detail'', Str ''Incorrect username or password'')]) \<rparr>"
       and body = "Obj [(''detail'', Str ''Incorrect username or password'')]"
       and m = "''Incorrect username or password''"
       and API_BASE = "''http://localhost:8001''" and s = "session0 (Some ''old'')"]
  have 1: "login ''http://localhost:8001''
     (Http \<lparr> http_ok = False, http_status = ''401'', http_statusText = ''Unauthorized'',
             http_json = Inr (Obj [(''detail'', Str ''Incorrect username or password'')]) \<rparr>)
     (session0 (Some ''old''))
   = (session0 (Some ''old''), Inl (Error ''Incorrect username or password''))"
    by blast
  from b login_failure
    [where r = "\<lparr> http_ok = False, http_status = ''502'', http_statusText = ''Bad Gateway'',
             http_json = Inl (SyntaxError ''Unexpected token < in JSON at position 0'') \<rparr>"
       and e' = "SyntaxError ''Unexpected token < in JSON at position 0''"
       and API_BASE = "''http://localhost:8001''" and s = "session0 (Some ''old'')"]
  have 2: "register ''http://localhost:8001''
     (Http \<lparr> http_ok = False, http_status = ''502'', http_statusText = ''Bad Gateway'',
             http_json = Inl (SyntaxError ''Unexpected token < in JSON at position 0'') \<rparr>)
     (session0 (Some ''old''))
   = (session0 (Some ''old''), Inl (cannot_connect ''http://localhost:8001''))"
    by blast
  from c login_failure
    [where r = "\<lparr> http_ok = False, http_status = ''401'', http_statusText = ''Unauthorized'',
             http_json = Inr (Obj []) \<rparr>"
       and body = "Obj []"
       and API_BASE = "''http://localhost:8001''" and s = "session0 (Some ''old'')"]
  have 3: "login ''http://localhost:8001''
     (Http \<lparr> http_ok = False, http_status = ''401'', http_statusText = ''Unauthorized'',
             http_json = Inr (Obj []) \<rparr>)
     (session0 (Some ''old''))
   = (session0 (Some ''old''), Inl (Error ''Failed to login''))"
    by blast
  from d login_failure
    [where rep = "NetworkError (TypeError ''Failed to fetch'')"
       and e = "TypeError ''Failed to fetch''"
       and API_BASE = "''http://localhost:8001''" and s = "session0 (Some ''old'')"]
  have 4: "fst (login ''http://localhost:8001'' (NetworkError (TypeError ''Failed to fetch''))
          (session0 (Some ''old''))) = session0 (Some ''old'')"
    by blast
  from n login_failure
    [where r = "\<lparr> http_ok = False, http_status = ''500'',
             http_statusText = ''Internal Server Error'', http_json = Inr Null \<rparr>"
       and body = Null
       and API_BASE = "''http://localhost:8001''" and s = "session0 (Some ''old'')"]
  have 5: "login ''http://localhost:8001''
     (Http \<lparr> http_ok = False, http_status = ''500'', http_statusText = ''Internal Server Error'',
             http_json = Inr Null \<rparr>)
     (session0 (Some ''old''))
   = (session0 (Some ''old''), Inl (cannot_connect ''http://localhost:8001''))"
    by blast
  from 1 2 3 4 5 d show ?thesis by blast
qed

subsection \<open>Restoring the session\<close>

text \<open>
  C8: with a token in the storage (a non-empty one: the empty string is falsy and
  the effect treats it as no token), the effect asks the backend who the user is.
  If that call fails, as it does with \<^verbatim>\<open>Failed to fetch user info\<close> when the server
  answers a status that is not ok, the token is removed from the storage, the
  token of the API client is cleared, the user is left as it was, \<^verbatim>\<open>loading\<close> ends,
  and the promise chain resolves: nothing is thrown. If the call succeeds the
  session is the token and the user. From the state at mount the failed restore
  ends in the empty session.
\<close>

theorem restore_session:
  "(stored_token s = Some token \<and> token \<noteq> [] \<and> getCurrentUser rep = Inl e \<longrightarrow>
      restore rep s = (s\<lparr> stored_token := None, authToken := Null, auth_loading := False \<rparr>, Resolved))
   \<and> (stored_token s = Some token \<and> token \<noteq> [] \<and> getCurrentUser rep = Inr userData \<longrightarrow>
      restore rep s = (s\<lparr> authToken := Str token, user := userData, auth_loading := False \<rparr>, Resolved))
   \<and> (\<not> http_ok r \<longrightarrow> getCurrentUser (Http r) = Inl (Error ''Failed to fetch user info''))
   \<and> (token \<noteq> [] \<and> \<not> http_ok r \<longrightarrow>
      restore (Http r) (session0 (Some token))
        = (\<lparr> stored_token = None, authToken = Null, user = Null, auth_loading = False \<rparr>, Resolved))
   \<and> (token \<noteq> [] \<and> http_ok r \<and> http_json r = Inr userData \<longrightarrow>
      restore (Http r) (session0 (Some token))
        = (\<lparr> stored_token = Some token, authToken = Str token, user = userData,
              auth_loading = False \<rparr>, Resolved))
   \<and> snd (restore rep s) = Resolved"
  by (auto simp: restore_def getCurrentUser_def session0_def split: option.splits sum.splits)

text \<open>C8 on two replies: an expired token and a valid one.\<close>

theorem restore_session_witness:
  "restore
     (Http \<lparr> http_ok = False, http_status = ''401'', http_statusText = ''Unauthorized'',
             http_json = Inr (Obj [(''detail'', Str ''Could not validate credentials'')]) \<rparr>)
     (session0 (Some ''expired.jwt''))
   = (\<lparr> stored_token = None, authToken = Null, user = Null, auth_loading = False \<rparr>, Resolved)
   \<and> restore
     (Http \<lparr> http_ok = True, http_status = ''200'', http_statusText = ''OK'',
             http_json = Inr (Obj [(''username'', Str ''ada'')]) \<rparr>)
     (session0 (Some ''valid.jwt''))
   = (\<lparr> stored_token = Some ''valid.jwt'', authToken = Str ''valid.jwt'',
         user = Obj [(''username'', Str ''ada'')], auth_loading = False \<rparr>, Resolved)"
  using restore_session
    [where token = "''expired.jwt''"
       and r = "\<lparr> http_ok = False, http_status = ''401'', http_statusText = ''Unauthorized'',
             http_json = Inr (Obj [(''detail'', Str ''Could not validate credentials'')]) \<rparr>"]
    restore_session
    [where token = "''valid.jwt''"
       and r = "\<lparr> http_ok = True, http_status = ''200'', http_statusText = ''OK'',
             http_json = Inr (Obj [(''username'', Str ''ada'')]) \<rparr>"
       and userData = "Obj [(''username'', Str ''ada'')]"]
  by simp

section \<open>Properties of the message text\<close>

lemma get_Inr: "\<not> nullish v \<Longrightarrow> get v k = Inr (field v k)"
  by (simp add: get_def)

lemma truthy_not_nullish: "truthy v \<Longrightarrow> \<not> nullish v"
  by (auto simp: nullish_def)

lemma truthy_opt_get: "truthy (opt_get v k) \<Longrightarrow> \<not> nullish v \<and> opt_get v k = field v k"
  by (auto simp: opt_get_def)

text \<open>
  C10, as stated, fails: the first test is for falsiness, not for null, so the
  empty string is not returned unchanged; and a field that is returned need not be
  a string.
\<close>

theorem getAssistantResponseText_counterexample:
  "getAssistantResponseText (Str []) = Inr (Str ''No response'')
   \<and> getAssistantResponseText (Obj [(''response'', Num ''5'')]) = Inr (Num ''5'')"
  by (simp add: getAssistantResponseText_def get_def nullish_def opt_get_def is_string_def
      isArray_def)

text \<open>
  C10, amended: \<^verbatim>\<open>getAssistantResponseText\<close> never throws, and its result is, in this
  order: \<^verbatim>\<open>No response\<close> for a falsy content (null, undefined, false, zero, NaN, the
  empty string); a non-empty string itself; else \<^verbatim>\<open>content.stage3.response\<close> if
  that is truthy; else \<^verbatim>\<open>content.response\<close> if that is truthy; else the \<^verbatim>\<open>response\<close>
  of the last element of an array if that is truthy; else
  \<^verbatim>\<open>Response format not recognized\<close>. A field is returned as it is, string or not.
\<close>

theorem getAssistantResponseText_cases:
  "(\<exists>v. getAssistantResponseText content = Inr v)
   \<and> (\<not> truthy content \<longrightarrow>
        getAssistantResponseText content = Inr (Str ''No response''))
   \<and> (truthy content \<and> is_string content \<longrightarrow>
        getAssistantResponseText content = Inr content)
   \<and> (truthy content \<and> \<not> is_string content
        \<and> truthy (opt_get (field content ''stage3'') ''response'') \<longrightarrow>
        getAssistantResponseText content = Inr (field (field content ''stage3'') ''response''))
   \<and> (truthy content \<and> \<not> is_string content
        \<and> \<not> truthy (opt_get (field content ''stage3'') ''response'')
        \<and> truthy (field content ''response'') \<longrightarrow>
        getAssistantResponseText content = Inr (field content ''response''))
   \<and> (truthy content \<and> \<not> is_string content
        \<and> \<not> truthy (opt_get (field content ''stage3'') ''response'')
        \<and> \<not> truthy (field content ''response'')
        \<and> isArray content \<and> truthy (opt_get (last_item content) ''response'') \<longrightarrow>
        getAssistantResponseText content = Inr (field (last_item content) ''response''))
   \<and> (truthy content \<and> \<not> is_string content
        \<and> \<not> truthy (opt_get (field content ''stage3'') ''response'')
        \<and> \<not> truthy (field content ''response'')
        \<and> \<not> (isArray content \<and> truthy (opt_get (last_item content) ''response'')) \<longrightarrow>
        getAssistantResponseText content = Inr (Str ''Response format not recognized''))"
proof (cases "truthy content")
  case False
  then show ?thesis by (simp add: getAssistantResponseText_def)
next
  case t: True
  then have g: "\<And>k. get content k = Inr (field content k)"
    by (simp add: get_Inr truthy_not_nullish)
  show ?thesis
  proof (cases "is_string content")
    case True
    with t show ?thesis by (simp add: getAssistantResponseText_def)
  next
    case s: False
    show ?thesis
      using t s g truthy_opt_get [of "field content ''stage3''" "''response''"]
        truthy_opt_get [of "last_item content" "''response''"]
      by (auto simp: getAssistantResponseText_def get_Inr)
  qed
qed

theorem getAssistantResponseText_cases_witness:
  "getAssistantResponseText Null = Inr (Str ''No response'')
   \<and> getAssistantResponseText (Str ''hello'') = Inr (Str ''hello'')
   \<and> getAssistantResponseText
        (Obj [(''stage3'', Obj [(''model'', Str ''chair''), (''response'', Str ''final'')])])
      = Inr (Str ''final'')
   \<and> getAssistantResponseText (Obj [(''response'', Str ''flat'')]) = Inr (Str ''flat'')
   \<and> getAssistantResponseText (Arr [Obj [(''response'', Str ''a'')], Obj [(''response'', Str ''b'')]])
      = Inr (Str ''b'')
   \<and> getAssistantResponseText (Arr []) = Inr (Str ''Response format not recognized'')"
  using getAssistantResponseText_cases [of Null]
    getAssistantResponseText_cases [of "Str ''hello''"]
    getAssistantResponseText_cases
      [of "Obj [(''stage3'', Obj [(''model'', Str ''chair''), (''response'', Str ''final'')])]"]
    getAssistantResponseText_cases [of "Obj [(''response'', Str ''flat'')]"]
    getAssistantResponseText_cases
      [of "Arr [Obj [(''response'', Str ''a'')], Obj [(''response'', Str ''b'')]]"]
    getAssistantResponseText_cases [of "Arr []"]
  by (simp add: is_string_def isArray_def last_item_def opt_get_def nullish_def)

end
